theory Spec2Isabelle
  imports
    Complex_Main
    "HOL-Library.Char_ord"
    "HOL-Library.List_Lexorder"
    "HOL-Library.Product_Lexorder"
    "HOL-Library.Multiset"
    "HOL-Library.AList"
begin

section \<open>Data model\<close>

text \<open>
  The functions of \<^verbatim>\<open>spac/data_utils.py\<close> work on pandas data frames. A frame is
  modelled column-wise, as pandas stores it: a list of row labels (the index) and a
  list of named columns. A column is either an \<^verbatim>\<open>int64\<close> column or an
  \<^verbatim>\<open>object\<close> column holding arbitrary Python values, of which integers, strings
  and the missing value \<^verbatim>\<open>nan\<close> are modelled.
\<close>

datatype pyobj = IntO int | StrO string | NaN

datatype column = Int64 "int list" | Object "pyobj list"

datatype dtype = DInt64 | DObject

record frame =
  index :: "nat list"
  columns :: "(string \<times> column) list"

text \<open>Python exceptions, with the place that raises them.\<close>

datatype reason =
    ColumnMissing | ColumnExists | RulesNotList | RuleFormat | Unpack
  | SchemaMismatch | AnnotationMissing | NoObjects | NegativeSample
  | BadFileNames | EmptyData | ParserFailure | MultipleInstance | NoColumnFound
  | BadLabels | InvalidLiteral | BadQuantile | TooFewSamples | BadShape | BadAnnotations
  | SampleTooLarge

datatype error =
    ValueError reason
  | TypeError reason
  | KeyError string
  | FileNotFoundError string
  | PermissionError string

fun cells :: "column \<Rightarrow> pyobj list" where
  "cells (Int64 xs) = map IntO xs"
| "cells (Object os) = os"

fun dtype_of :: "column \<Rightarrow> dtype" where
  "dtype_of (Int64 xs) = DInt64"
| "dtype_of (Object os) = DObject"

definition column_names :: "frame \<Rightarrow> string list" where
  "column_names f = map fst (columns f)"

definition len :: "frame \<Rightarrow> nat" where
  "len f = length (index f)"

text \<open>\<^verbatim>\<open>DataFrame.empty\<close>: true when either axis has length 0.\<close>

definition frame_empty :: "frame \<Rightarrow> bool" where
  "frame_empty f = (index f = [] \<or> columns f = [])"

text \<open>A frame is well formed when every column has one cell per row label.\<close>

definition wf_frame :: "frame \<Rightarrow> bool" where
  "wf_frame f = list_all (\<lambda>(n, c). length (cells c) = length (index f)) (columns f)"

text \<open>\<^verbatim>\<open>data[name]\<close>, for a name that is present.\<close>

definition get_column :: "frame \<Rightarrow> string \<Rightarrow> column option" where
  "get_column f name = map_of (columns f) name"

text \<open>Positional row selection (\<^verbatim>\<open>iloc\<close> with a list of positions).\<close>

fun col_iloc :: "nat list \<Rightarrow> column \<Rightarrow> column" where
  "col_iloc ps (Int64 xs) = Int64 (map (\<lambda>p. xs ! p) ps)"
| "col_iloc ps (Object os) = Object (map (\<lambda>p. os ! p) ps)"

definition iloc :: "nat list \<Rightarrow> frame \<Rightarrow> frame" where
  "iloc ps f = \<lparr>index = map (\<lambda>p. index f ! p) ps,
               columns = map (\<lambda>(n, c). (n, col_iloc ps c)) (columns f)\<rparr>"

text \<open>The positions at which a boolean mask holds (\<^verbatim>\<open>data[mask]\<close>).\<close>

definition mask_positions :: "bool list \<Rightarrow> nat list" where
  "mask_positions m = filter (\<lambda>p. m ! p) [0..<length m]"

text \<open>
  Data frames are mutable objects that callers share by reference. Where a function
  writes into a frame it was given, the frames live in a store and the function takes
  and returns references; allocating a frame appends it to the store.
\<close>

type_synonym ref = nat

type_synonym store = "frame list"

text \<open>
  \<^verbatim>\<open>data[name] = column\<close>: an existing column of that name is replaced where it
  stands, a new one is added last.
\<close>

definition set_column :: "string \<Rightarrow> column \<Rightarrow> frame \<Rightarrow> frame" where
  "set_column name c f = f\<lparr>columns := AList.update name c (columns f)\<rparr>"

text \<open>A scalar assigned to a column is repeated for every row.\<close>

fun broadcast :: "pyobj \<Rightarrow> nat \<Rightarrow> column" where
  "broadcast (IntO i) n = Int64 (replicate n i)"
| "broadcast v n = Object (replicate n v)"

text \<open>The column pandas builds from a list of values: \<^verbatim>\<open>int64\<close> if all are integers.\<close>

fun the_int :: "pyobj \<Rightarrow> int" where
  "the_int (IntO i) = i"
| "the_int _ = 0"

fun is_int :: "pyobj \<Rightarrow> bool" where
  "is_int (IntO i) = True"
| "is_int _ = False"

definition column_of_list :: "pyobj list \<Rightarrow> column" where
  "column_of_list vs = (if vs \<noteq> [] \<and> list_all is_int vs then Int64 (map the_int vs) else Object vs)"

section \<open>Row selection\<close>

text \<open>
  \<^verbatim>\<open>select_values(data, annotation, values=None)\<close>. The warning issued when the
  filter matches no row is not modelled: it does not change the result.
\<close>

definition select_values :: "frame \<Rightarrow> string \<Rightarrow> pyobj list option \<Rightarrow> error + frame" where
  "select_values data annotation vals =
     (if \<not> frame_empty data then
        (if annotation \<notin> set (column_names data) then Inl (ValueError ColumnMissing)
         else
           (case vals of
              None \<Rightarrow> Inr data
            | Some vs \<Rightarrow>
                (case get_column data annotation of
                   None \<Rightarrow> Inl (ValueError ColumnMissing)
                 | Some c \<Rightarrow>
                     Inr (iloc (mask_positions (map (\<lambda>v. v \<in> set vs) (cells c))) data))))
      else Inr data)"

section \<open>Feature tables and the annotated matrix\<close>

text \<open>
  A feature table is a data frame all of whose columns are numeric, such as the frame
  \<^verbatim>\<open>adata.to_df()\<close> returns. Its values are modelled as exact rationals: the
  rounding of 64-bit floating point arithmetic and the values \<^verbatim>\<open>nan\<close> and
  \<^verbatim>\<open>inf\<close> are outside the model.
\<close>

record features =
  findex :: "pyobj list"
  fcolumns :: "(string \<times> rat list) list"

definition wf_features :: "features \<Rightarrow> bool" where
  "wf_features f = list_all (\<lambda>(n, xs). length xs = length (findex f)) (fcolumns f)"

text \<open>
  \<^verbatim>\<open>Series.quantile(q)\<close> with the default linear interpolation: on the sorted
  values, the value at the fractional position \<open>(n - 1) * q\<close>. The quantile of an
  empty column is \<^verbatim>\<open>nan\<close>, here \<open>None\<close>.
\<close>

definition quantile :: "rat list \<Rightarrow> rat \<Rightarrow> rat option" where
  "quantile xs q =
     (if xs = [] then None
      else
        (let s = sort xs;
             h = of_nat (length xs - 1) * q;
             lo = nat \<lfloor>h\<rfloor>;
             hi = nat \<lceil>h\<rceil>
         in Some (s ! lo + (s ! hi - s ! lo) * (h - of_int \<lfloor>h\<rfloor>))))"

text \<open>\<^verbatim>\<open>DataFrame.quantile\<close> refuses a \<open>q\<close> outside \<open>[0, 1]\<close>.\<close>

definition valid_quantile :: "rat \<Rightarrow> bool" where
  "valid_quantile q = (0 \<le> q \<and> q \<le> 1)"

text \<open>
  \<^verbatim>\<open>features.clip(lower, upper, axis=1)\<close> with one threshold per column: the lower
  bound is applied first, then the upper bound.
\<close>

definition clip :: "rat \<Rightarrow> rat \<Rightarrow> rat list \<Rightarrow> rat list" where
  "clip lower upper xs = map (\<lambda>x. min (max x lower) upper) xs"

text \<open>
  \<^verbatim>\<open>MinMaxScaler().fit_transform\<close> on one column, with the default feature range
  \<open>(0, 1)\<close>: \<^verbatim>\<open>scale_ = 1 / data_range\<close>, where a zero range is replaced by 1,
  \<^verbatim>\<open>min_ = 0 - data_min * scale_\<close>, and the column becomes
  \<^verbatim>\<open>X * scale_ + min_\<close>.
\<close>

definition min_max_scale :: "rat list \<Rightarrow> rat list" where
  "min_max_scale xs =
     (let data_min = Min (set xs);
          data_max = Max (set xs);
          data_range = data_max - data_min;
          scale = 1 / (if data_range = 0 then 1 else data_range);
          min' = 0 - data_min * scale
      in map (\<lambda>x. x * scale + min') xs)"

text \<open>
  \<^verbatim>\<open>rescale_features(features, min_quantile=0.01, max_quantile=0.99)\<close>. The
  scaler refuses an array with no row or no column. The result is a new frame over the
  scaled array, with the input's column names and a fresh index \<open>0, 1, \<dots>\<close>.
\<close>

definition rescale_column :: "rat \<Rightarrow> rat \<Rightarrow> rat list \<Rightarrow> rat list" where
  "rescale_column min_quantile max_quantile xs =
     (case (quantile xs min_quantile, quantile xs max_quantile) of
        (Some lo, Some hi) \<Rightarrow> min_max_scale (clip lo hi xs)
      | _ \<Rightarrow> xs)"

definition rescale_features :: "features \<Rightarrow> rat \<Rightarrow> rat \<Rightarrow> error + features" where
  "rescale_features feats min_quantile max_quantile =
     (if \<not> valid_quantile max_quantile \<or> \<not> valid_quantile min_quantile
      then Inl (ValueError BadQuantile)
      else if findex feats = [] \<or> fcolumns feats = [] then Inl (ValueError TooFewSamples)
      else Inr \<lparr>findex = map (\<lambda>i. IntO (int i)) [0..<length (findex feats)],
                fcolumns = map (\<lambda>(n, xs). (n, rescale_column min_quantile max_quantile xs))
                             (fcolumns feats)\<rparr>)"

text \<open>
  \<^verbatim>\<open>subtract_min_quantile(features, min_quantile=.01)\<close>: subtract each column's
  quantile, then clip below at 0. The frame keeps its index.
\<close>

definition subtract_column :: "rat \<Rightarrow> rat list \<Rightarrow> rat list" where
  "subtract_column min_quantile xs =
     (case quantile xs min_quantile of
        None \<Rightarrow> xs
      | Some m \<Rightarrow> map (\<lambda>x. max (x - m) 0) xs)"

definition subtract_min_quantile :: "features \<Rightarrow> rat \<Rightarrow> error + features" where
  "subtract_min_quantile feats min_quantile =
     (if \<not> valid_quantile min_quantile then Inl (ValueError BadQuantile)
      else Inr (feats\<lparr>fcolumns :=
                  map (\<lambda>(n, xs). (n, subtract_column min_quantile xs)) (fcolumns feats)\<rparr>))"

text \<open>
  The annotated matrix (\<^verbatim>\<open>anndata.AnnData\<close>): the primary matrix \<open>X\<close> with one
  row per observation, the names of the observations and of the variables, the
  annotation columns \<open>obs\<close>, and the named layers. A layer is a plain array: it has no
  row labels, so its row \<open>i\<close> belongs to observation \<open>i\<close> by position alone.
\<close>

type_synonym ndarray = "rat list list"

record anndata =
  obs_names :: "string list"
  var_names :: "string list"
  X :: ndarray
  obs :: "(string \<times> pyobj list) list"
  layers :: "string \<rightharpoonup> ndarray"

text \<open>\<^verbatim>\<open>adata.to_df()\<close>: the primary matrix as a frame indexed by the observation names.\<close>

definition to_df :: "anndata \<Rightarrow> features" where
  "to_df adata =
     \<lparr>findex = map StrO (obs_names adata),
      fcolumns = map (\<lambda>j. (var_names adata ! j, map (\<lambda>row. row ! j) (X adata)))
                   [0..<length (var_names adata)]\<rparr>"

text \<open>\<^verbatim>\<open>DataFrame.to_numpy()\<close>: the values by row, the labels dropped.\<close>

definition to_numpy :: "features \<Rightarrow> ndarray" where
  "to_numpy f = map (\<lambda>i. map (\<lambda>(n, xs). xs ! i) (fcolumns f)) [0..<length (findex f)]"

text \<open>
  \<^verbatim>\<open>adata.layers[key] = value\<close> for a frame: anndata checks that the shape of the
  value is that of the matrix and stores the frame's array. The frame's index is not
  compared with the observation names, and no row is moved.
\<close>

definition layers_setitem :: "anndata \<Rightarrow> string \<Rightarrow> features \<Rightarrow> error + anndata" where
  "layers_setitem adata key val =
     (if length (findex val) \<noteq> length (obs_names adata) \<or>
         length (fcolumns val) \<noteq> length (var_names adata)
      then Inl (ValueError BadShape)
      else Inr (adata\<lparr>layers := (layers adata)(key \<mapsto> to_numpy val)\<rparr>))"

text \<open>\<^verbatim>\<open>add_rescaled_features(adata, min_quantile, max_quantile, layer)\<close>.\<close>

definition add_rescaled_features ::
  "anndata \<Rightarrow> rat \<Rightarrow> rat \<Rightarrow> string \<Rightarrow> error + anndata" where
  "add_rescaled_features adata min_quantile max_quantile layer =
     (let original = to_df adata in
      case rescale_features original min_quantile max_quantile of
        Inl e \<Rightarrow> Inl e
      | Inr rescaled \<Rightarrow> layers_setitem adata layer rescaled)"

text \<open>Python's \<^verbatim>\<open>==\<close> on cell values: \<^verbatim>\<open>nan\<close> equals nothing, not even itself.\<close>

definition py_eq :: "pyobj \<Rightarrow> pyobj \<Rightarrow> bool" where
  "py_eq a b = (a \<noteq> NaN \<and> a = b)"

text \<open>\<^verbatim>\<open>Series.unique()\<close>: the distinct values in order of first appearance.\<close>

fun unique :: "'a list \<Rightarrow> 'a list" where
  "unique [] = []"
| "unique (x # xs) = x # unique (filter (\<lambda>y. y \<noteq> x) xs)"

text \<open>\<^verbatim>\<open>original[mask]\<close>: the rows at which the mask holds, in their order.\<close>

definition select_mask :: "bool list \<Rightarrow> 'a list \<Rightarrow> 'a list" where
  "select_mask m xs = map snd (filter fst (zip m xs))"

definition fselect :: "bool list \<Rightarrow> features \<Rightarrow> features" where
  "fselect m f =
     \<lparr>findex = select_mask m (findex f),
      fcolumns = map (\<lambda>(n, xs). (n, select_mask m xs)) (fcolumns f)\<rparr>"

text \<open>
  \<^verbatim>\<open>pd.concat\<close> of frames that all have the columns of the first one, as the
  per-region slices of one frame do: the rows of the frames one after the other, each
  with its label. An empty list is refused.
\<close>

definition concat_features :: "features list \<Rightarrow> error + features" where
  "concat_features fs =
     (case fs of
        [] \<Rightarrow> Inl (ValueError NoObjects)
      | f # _ \<Rightarrow>
          Inr \<lparr>findex = concat (map findex fs),
               fcolumns = map (\<lambda>j. (fst (fcolumns f ! j),
                                     concat (map (\<lambda>g. snd (fcolumns g ! j)) fs)))
                            [0..<length (fcolumns f)]\<rparr>)"

text \<open>
  \<^verbatim>\<open>subtract_min_per_region(adata, annotation, layer, min_quantile=0.01)\<close>. The
  loop over the regions collects one frame per region; the frames are concatenated in
  the order of the regions and the result is stored as the layer.
\<close>

fun region_loop ::
  "features \<Rightarrow> pyobj list \<Rightarrow> rat \<Rightarrow> pyobj list \<Rightarrow> features list \<Rightarrow> error + features list"
where
  "region_loop original ann min_quantile [] new_df_list = Inr new_df_list"
| "region_loop original ann min_quantile (region # regions) new_df_list =
     (let region_cells = fselect (map (\<lambda>v. py_eq v region) ann) original in
      case subtract_min_quantile region_cells min_quantile of
        Inl e \<Rightarrow> Inl e
      | Inr new_features \<Rightarrow>
          region_loop original ann min_quantile regions (new_df_list @ [new_features]))"

definition subtract_min_per_region ::
  "anndata \<Rightarrow> string \<Rightarrow> string \<Rightarrow> rat \<Rightarrow> error + anndata" where
  "subtract_min_per_region adata annotation layer min_quantile =
     (case map_of (obs adata) annotation of
        None \<Rightarrow> Inl (KeyError annotation)
      | Some ann \<Rightarrow>
          (let regions = unique ann;
               original = to_df adata
           in case region_loop original ann min_quantile regions [] of
                Inl e \<Rightarrow> Inl e
              | Inr new_df_list \<Rightarrow>
                  (case concat_features new_df_list of
                     Inl e \<Rightarrow> Inl e
                   | Inr new_df \<Rightarrow> layers_setitem adata layer new_df)))"

text \<open>
  Following the spec's words, for comparison with the code: the layer in which row
  \<open>i\<close> holds the transformed values of observation \<open>i\<close>, that is each value
  minus the quantile of its column within the region of observation \<open>i\<close>, clipped
  below at 0.
\<close>

definition aligned_region_layer :: "anndata \<Rightarrow> pyobj list \<Rightarrow> rat \<Rightarrow> ndarray" where
  "aligned_region_layer adata ann min_quantile =
     map (\<lambda>i.
        map (\<lambda>j.
           (let region_values =
                  select_mask (map (\<lambda>v. py_eq v (ann ! i)) ann) (map (\<lambda>row. row ! j) (X adata))
            in case quantile region_values min_quantile of
                 None \<Rightarrow> X adata ! i ! j
               | Some m \<Rightarrow> max (X adata ! i ! j - m) 0))
          [0..<length (var_names adata)])
       [0..<length (obs_names adata)]"

section \<open>Mapping an annotation\<close>

text \<open>The argument \<^verbatim>\<open>mapping_rules\<close>: a list of strings, or anything else.\<close>

datatype rules_arg = Rules "string list" | NotAList

text \<open>\<^verbatim>\<open>str.split(sep)\<close> for a separator of one character.\<close>

fun split_on :: "char \<Rightarrow> string \<Rightarrow> string list" where
  "split_on sep [] = [[]]"
| "split_on sep (x # xs) =
     (if x = sep then [] # split_on sep xs
      else (case split_on sep xs of
              [] \<Rightarrow> [[x]]
            | p # ps \<Rightarrow> (x # p) # ps))"

text \<open>\<^verbatim>\<open>str(n)\<close> for an integer: the decimal digits, after a minus sign if negative.\<close>

definition digit_char :: "nat \<Rightarrow> char" where
  "digit_char d = char_of (48 + d)"

fun str_of_nat :: "nat \<Rightarrow> string" where
  "str_of_nat n =
     (if n < 10 then [digit_char n] else str_of_nat (n div 10) @ [digit_char (n mod 10)])"

declare str_of_nat.simps [simp del]

definition str_of_int :: "int \<Rightarrow> string" where
  "str_of_int i = (if i < 0 then CHR ''-'' # str_of_nat (nat (- i)) else str_of_nat (nat i))"

text \<open>
  \<^verbatim>\<open>int(s)\<close> on the strings the conversion back meets: decimal digits after an
  optional minus sign. Anything else is refused (Python also accepts a plus sign,
  surrounding blanks and underscores between digits, which \<^verbatim>\<open>str\<close> never writes).
\<close>

definition digit_value :: "char \<Rightarrow> nat option" where
  "digit_value c =
     (let n = (of_char c :: nat) in if 48 \<le> n \<and> n \<le> 57 then Some (n - 48) else None)"

fun nat_of_digits :: "string \<Rightarrow> nat \<Rightarrow> nat option" where
  "nat_of_digits [] acc = Some acc"
| "nat_of_digits (c # cs) acc =
     (case digit_value c of
        None \<Rightarrow> None
      | Some d \<Rightarrow> nat_of_digits cs (10 * acc + d))"

definition nat_of_str :: "string \<Rightarrow> nat option" where
  "nat_of_str ds = (if ds = [] then None else nat_of_digits ds 0)"

definition int_of_str :: "string \<Rightarrow> int option" where
  "int_of_str str =
     (case str of
        [] \<Rightarrow> None
      | c # cs \<Rightarrow>
          (if c = CHR ''-'' then map_option (\<lambda>n. - int n) (nat_of_str cs)
           else map_option int (nat_of_str str)))"

text \<open>\<^verbatim>\<open>str(v)\<close> for a cell value.\<close>

fun py_str :: "pyobj \<Rightarrow> string" where
  "py_str (IntO i) = str_of_int i"
| "py_str (StrO str) = str"
| "py_str NaN = ''nan''"

text \<open>\<^verbatim>\<open>Series.astype(str)\<close>: an object column of the strings.\<close>

definition astype_str :: "column \<Rightarrow> column" where
  "astype_str c = Object (map (\<lambda>v. StrO (py_str v)) (cells c))"

text \<open>
  \<^verbatim>\<open>Series.astype(dtype)\<close> for the two modelled dtypes. To \<^verbatim>\<open>object\<close> the
  values stay as they are; to \<^verbatim>\<open>int64\<close> every value is converted by
  \<^verbatim>\<open>int\<close>, which raises on a string that is no integer and on \<^verbatim>\<open>nan\<close>.
\<close>

fun to_int :: "pyobj \<Rightarrow> int option" where
  "to_int (IntO i) = Some i"
| "to_int (StrO str) = int_of_str str"
| "to_int NaN = None"

fun astype :: "dtype \<Rightarrow> column \<Rightarrow> error + column" where
  "astype DObject c = Inr (Object (cells c))"
| "astype DInt64 c =
     (case those (map to_int (cells c)) of
        None \<Rightarrow> Inl (ValueError InvalidLiteral)
      | Some is \<Rightarrow> Inr (Int64 is))"

text \<open>
  \<^verbatim>\<open>result_data.loc[result_data[source_column] == source_value, new_column] = new_value\<close>.
\<close>

definition assign_where ::
  "string \<Rightarrow> string \<Rightarrow> string \<Rightarrow> string \<Rightarrow> frame \<Rightarrow> error + frame" where
  "assign_where source_column source_value new_column new_value df =
     (case get_column df source_column of
        None \<Rightarrow> Inl (KeyError source_column)
      | Some src \<Rightarrow>
          (case get_column df new_column of
             None \<Rightarrow> Inl (KeyError new_column)
           | Some new \<Rightarrow>
               Inr (set_column new_column
                      (Object (map2 (\<lambda>v old. if py_eq v (StrO source_value) then StrO new_value
                                              else old)
                                 (cells src) (cells new)))
                      df)))"

text \<open>
  The loop over the rules. A rule is split at every colon and unpacked into two names,
  which raises unless the split yields exactly two parts.
\<close>

fun rules_loop :: "string list \<Rightarrow> string \<Rightarrow> string \<Rightarrow> frame \<Rightarrow> error + frame" where
  "rules_loop [] source_column new_column result_data = Inr result_data"
| "rules_loop (rule # rules) source_column new_column result_data =
     (case split_on CHR '':'' rule of
        [source_value, new_value] \<Rightarrow>
          (case assign_where source_column source_value new_column new_value result_data of
             Inl e \<Rightarrow> Inl e
           | Inr result_data' \<Rightarrow> rules_loop rules source_column new_column result_data')
      | _ \<Rightarrow> Inl (ValueError Unpack))"

text \<open>
  The body of \<^verbatim>\<open>append_observation\<close> after its checks, on the copy of the input:
  the new column is filled with the sentinel, the source column is turned into strings,
  the rules are applied, and the source column is converted back to its first dtype.
\<close>

definition mapped_copy :: "frame \<Rightarrow> string \<Rightarrow> string \<Rightarrow> string list \<Rightarrow> error + frame" where
  "mapped_copy data source_column new_column rules =
     (let result_data =
            set_column new_column (broadcast (StrO ''Not_Mapped'') (len data)) data
      in case get_column result_data source_column of
           None \<Rightarrow> Inl (KeyError source_column)
         | Some src \<Rightarrow>
             (let original_dtype = dtype_of src;
                  result_data' = set_column source_column (astype_str src) result_data
              in case rules_loop rules source_column new_column result_data' of
                   Inl e \<Rightarrow> Inl e
                 | Inr result_data'' \<Rightarrow>
                     (case get_column result_data'' source_column of
                        None \<Rightarrow> Inl (KeyError source_column)
                      | Some src' \<Rightarrow>
                          (case astype original_dtype src' of
                             Inl e \<Rightarrow> Inl e
                           | Inr c \<Rightarrow> Inr (set_column source_column c result_data'')))))"

text \<open>
  \<^verbatim>\<open>append_observation(data, source_column, new_column, mapping_rules)\<close>. The
  frame it returns is a new object: it is added to the store and the input frame is
  left as it is.
\<close>

definition append_observation ::
  "store \<Rightarrow> ref \<Rightarrow> string \<Rightarrow> string \<Rightarrow> rules_arg \<Rightarrow> store \<times> (error + ref)" where
  "append_observation s data source_column new_column mapping_rules =
     (if source_column \<notin> set (column_names (s ! data)) then (s, Inl (ValueError ColumnMissing))
      else if new_column \<in> set (column_names (s ! data)) then (s, Inl (ValueError ColumnExists))
      else
        (case mapping_rules of
           NotAList \<Rightarrow> (s, Inl (ValueError RulesNotList))
         | Rules rules \<Rightarrow>
             if \<not> list_all (\<lambda>rule. CHR '':'' \<in> set rule) rules
             then (s, Inl (ValueError RuleFormat))
             else
               (case mapped_copy (s ! data) source_column new_column rules of
                  Inl e \<Rightarrow> (s, Inl e)
                | Inr result_data \<Rightarrow> (s @ [result_data], Inr (length s)))))"

text \<open>
  For the statements about \<^verbatim>\<open>append_observation\<close>: the value that the rules, read
  in their order, leave in a row whose source string is \<open>sv\<close> and whose value was
  \<open>old\<close> before.
\<close>

definition mapped_value :: "string list \<Rightarrow> string \<Rightarrow> pyobj \<Rightarrow> pyobj" where
  "mapped_value rules sv old =
     fold (\<lambda>rule acc. case split_on CHR '':'' rule of
                         [source_value, new_value] \<Rightarrow>
                           (if sv = source_value then StrO new_value else acc)
                       | _ \<Rightarrow> acc)
       rules old"

section \<open>Reading and combining files\<close>

text \<open>
  The file system as \<^verbatim>\<open>load_csv_files\<close> sees it: a path is missing, present but
  unreadable, or readable with a content that is empty, malformed or a table.
\<close>

datatype csv_file = Missing | Unreadable | EmptyFile | Malformed | Csv frame

type_synonym filesystem = "string \<Rightarrow> csv_file"

text \<open>
  \<^verbatim>\<open>pd.read_csv\<close>, with the two pandas errors turned into \<^verbatim>\<open>TypeError\<close> as
  the source does. A content with no column is the empty-data error of pandas
  (``no columns to parse from file'').
\<close>

fun read_csv :: "csv_file \<Rightarrow> error + frame" where
  "read_csv (Csv df) = (if columns df = [] then Inl (TypeError EmptyData) else Inr df)"
| "read_csv Malformed = Inl (TypeError ParserFailure)"
| "read_csv _ = Inl (TypeError EmptyData)"

text \<open>The argument \<^verbatim>\<open>file_names\<close>: a list of paths, one path, or anything else.\<close>

datatype file_names_arg = NameList "string list" | NameStr string | NameOther

text \<open>
  The loop of \<^verbatim>\<open>load_csv_files\<close> over the paths, with the schema of the first file
  (\<^verbatim>\<open>meta_schema\<close>) and the list built so far as its state. The printed report is
  not modelled.
\<close>

fun load_loop ::
  "filesystem \<Rightarrow> string list \<Rightarrow> string list \<Rightarrow> (string \<times> frame) list
     \<Rightarrow> error + (string \<times> frame) list"
where
  "load_loop fs [] meta_schema dataframe_list = Inr dataframe_list"
| "load_loop fs (file_name # rest) meta_schema dataframe_list =
     (if fs file_name = Missing then Inl (FileNotFoundError file_name)
      else if fs file_name = Unreadable then Inl (PermissionError file_name)
      else
        (case read_csv (fs file_name) of
           Inl e \<Rightarrow> Inl e
         | Inr current_df \<Rightarrow>
             (let current_schema = column_names current_df;
                  meta_schema' = (if length meta_schema = 0 then current_schema
                                  else meta_schema)
              in if length meta_schema' = length current_schema then
                   (if set meta_schema' \<noteq> set current_schema
                    then Inl (ValueError SchemaMismatch)
                    else load_loop fs rest meta_schema'
                           (dataframe_list @ [(file_name, current_df)]))
                 else Inl (ValueError SchemaMismatch))))"

definition load_csv_files ::
  "filesystem \<Rightarrow> file_names_arg \<Rightarrow> error + (string \<times> frame) list" where
  "load_csv_files fs file_names =
     (case file_names of
        NameOther \<Rightarrow> Inl (TypeError BadFileNames)
      | NameStr name \<Rightarrow> load_loop fs [name] [] []
      | NameList names \<Rightarrow> load_loop fs names [] [])"

text \<open>
  For the statements about \<^verbatim>\<open>load_csv_files\<close>: a path holds a table that pandas
  parses, and the table and column names it holds.
\<close>

fun parseable :: "csv_file \<Rightarrow> bool" where
  "parseable (Csv df) = (columns df \<noteq> [])"
| "parseable _ = False"

fun parsed :: "csv_file \<Rightarrow> frame" where
  "parsed (Csv df) = df"
| "parsed _ = \<lparr>index = [], columns = []\<rparr>"

definition same_schema :: "filesystem \<Rightarrow> string \<Rightarrow> string \<Rightarrow> bool" where
  "same_schema fs first_name name =
     (length (column_names (parsed (fs name))) = length (column_names (parsed (fs first_name))) \<and>
      set (column_names (parsed (fs name))) = set (column_names (parsed (fs first_name))))"

text \<open>
  The argument \<^verbatim>\<open>annotations\<close> of \<^verbatim>\<open>combine_dfs\<close>: a frame indexed by file
  name, given by its rows as lists of an annotation name and its value, or anything
  else. A file name is taken to label at most one row.
\<close>

datatype annotations_arg = AnnFrame "(string \<times> (string \<times> pyobj) list) list" | AnnOther

text \<open>
  \<^verbatim>\<open>pd.concat([a, b])\<close>: the rows of \<open>a\<close>, then those of \<open>b\<close>, over the
  columns of \<open>a\<close> followed by the further columns of \<open>b\<close>; a frame lacking a
  column has \<^verbatim>\<open>nan\<close> there.
\<close>

fun col_append :: "column \<Rightarrow> column \<Rightarrow> column" where
  "col_append (Int64 xs) (Int64 ys) = Int64 (xs @ ys)"
| "col_append c d = Object (cells c @ cells d)"

definition column_or_nan :: "frame \<Rightarrow> string \<Rightarrow> column" where
  "column_or_nan f n =
     (case map_of (columns f) n of
        Some c \<Rightarrow> c
      | None \<Rightarrow> Object (replicate (len f) NaN))"

definition concat_frames :: "frame \<Rightarrow> frame \<Rightarrow> frame" where
  "concat_frames a b =
     \<lparr>index = index a @ index b,
      columns = map (\<lambda>n. (n, col_append (column_or_nan a n) (column_or_nan b n)))
                  (column_names a @ filter (\<lambda>n. n \<notin> set (column_names a)) (column_names b))\<rparr>"

text \<open>
  The inner loop of \<^verbatim>\<open>combine_dfs\<close>: each annotation of the file is written into
  the frame as a column holding the value in every row.
\<close>

definition add_annotations :: "(string \<times> pyobj) list \<Rightarrow> frame \<Rightarrow> frame" where
  "add_annotations file_annotations current_df =
     fold (\<lambda>(file_annotation_name, file_annotation_value) df.
             set_column file_annotation_name (broadcast file_annotation_value (len df)) df)
       file_annotations current_df"

text \<open>
  The loop of \<^verbatim>\<open>combine_dfs\<close> over the pairs of a file name and a frame. The frame
  of a pair is the caller's object, reached through its reference: the annotation
  columns are written into it, and the store is returned as it stands when the loop
  ends or raises. The combined frame is a new object. The printed report is not
  modelled.
\<close>

fun combine_loop ::
  "(string \<times> (string \<times> pyobj) list) list \<Rightarrow> (string \<times> ref) list \<Rightarrow> store \<Rightarrow> string list
     \<Rightarrow> frame \<Rightarrow> store \<times> (error + frame)"
where
  "combine_loop annotations [] s meta_schema combined_dataframe = (s, Inr combined_dataframe)"
| "combine_loop annotations ((file_name, r) # rest) s meta_schema combined_dataframe =
     (let current_df = s ! r;
          current_schema = column_names current_df;
          meta_schema' = (if length meta_schema = 0 then current_schema else meta_schema)
      in if length meta_schema' = length current_schema then
           (if set meta_schema' \<noteq> set current_schema then (s, Inl (ValueError SchemaMismatch))
            else
              (case map_of annotations file_name of
                 None \<Rightarrow> (s, Inl (ValueError AnnotationMissing))
               | Some file_annotations \<Rightarrow>
                   (let current_df' = add_annotations file_annotations current_df;
                        s' = s[r := current_df'];
                        combined_dataframe' =
                          (if frame_empty combined_dataframe then current_df'
                           else concat_frames combined_dataframe current_df')
                    in combine_loop annotations rest s' meta_schema' combined_dataframe')))
         else (s, Inl (ValueError SchemaMismatch)))"

definition combine_dfs ::
  "store \<Rightarrow> (string \<times> ref) list \<Rightarrow> annotations_arg \<Rightarrow> store \<times> (error + frame)" where
  "combine_dfs s dataframes annotations =
     (case annotations of
        AnnOther \<Rightarrow> (s, Inl (TypeError BadAnnotations))
      | AnnFrame ann \<Rightarrow>
          (case combine_loop ann dataframes s [] \<lparr>index = [], columns = []\<rparr> of
             (s', Inl e) \<Rightarrow> (s', Inl e)
           | (s', Inr combined_dataframe) \<Rightarrow>
               (s', Inr (combined_dataframe\<lparr>index := [0..<len combined_dataframe]\<rparr>))))"

text \<open>
  For the statements about \<^verbatim>\<open>combine_dfs\<close>: the store in which the frames of the
  given pairs, one after the other, have received the annotations of their file.
\<close>

definition annotate_inputs ::
  "(string \<times> (string \<times> pyobj) list) list \<Rightarrow> (string \<times> ref) list \<Rightarrow> store \<Rightarrow> store" where
  "annotate_inputs annotations pairs s =
     fold (\<lambda>(file_name, r) s.
             case map_of annotations file_name of
               None \<Rightarrow> s
             | Some file_annotations \<Rightarrow> s[r := add_annotations file_annotations (s ! r)])
       pairs s"

section \<open>Collapsing one-hot columns\<close>

text \<open>The argument \<^verbatim>\<open>one_hot_annotations\<close>: a string, a list of strings, or anything else.\<close>

datatype patterns_arg = PatStr string | PatList "string list" | PatOther

text \<open>\<^verbatim>\<open>data.loc[:, labels]\<close>: the named columns, in the order of the labels.\<close>

fun loc_columns :: "frame \<Rightarrow> string list \<Rightarrow> error + (string \<times> column) list" where
  "loc_columns f [] = Inr []"
| "loc_columns f (l # ls) =
     (case map_of (columns f) l of
        None \<Rightarrow> Inl (KeyError l)
      | Some c \<Rightarrow>
          (case loc_columns f ls of
             Inl e \<Rightarrow> Inl e
           | Inr cs \<Rightarrow> Inr ((l, c) # cs)))"

text \<open>The inner function of \<^verbatim>\<open>bin2cat\<close>, applied to row \<open>i\<close>.\<close>

definition get_columns_with_1 :: "(string \<times> column) list \<Rightarrow> nat \<Rightarrow> error + pyobj" where
  "get_columns_with_1 cell_labels_df i =
     (let column_names = map fst (filter (\<lambda>(n, c). py_eq (cells c ! i) (IntO 1)) cell_labels_df)
      in if length column_names > 1 then Inl (ValueError MultipleInstance)
         else if length column_names = 1 then Inr (StrO (hd column_names))
         else Inr NaN)"

text \<open>\<^verbatim>\<open>apply(f, axis=1)\<close>: the rows in order, stopping at the first error.\<close>

fun apply_rows :: "(nat \<Rightarrow> error + 'a) \<Rightarrow> nat list \<Rightarrow> error + 'a list" where
  "apply_rows f [] = Inr []"
| "apply_rows f (i # is) =
     (case f i of
        Inl e \<Rightarrow> Inl e
      | Inr v \<Rightarrow> (case apply_rows f is of Inl e \<Rightarrow> Inl e | Inr vs \<Rightarrow> Inr (v # vs)))"

text \<open>A string stands for the list holding it; any other value but a list is refused.\<close>

fun patterns_of :: "patterns_arg \<Rightarrow> string list option" where
  "patterns_of (PatStr p) = Some [p]"
| "patterns_of (PatList ps) = Some ps"
| "patterns_of PatOther = None"

text \<open>
  \<^verbatim>\<open>bin2cat(data, one_hot_annotations, new_annotation)\<close>. The helper
  \<^verbatim>\<open>regex_search_list\<close> of \<^verbatim>\<open>spac.utils\<close> is not part of the sources at hand
  and is a parameter. The function returns the reference it was given; with an empty
  list of patterns it falls off its end and returns Python's \<^verbatim>\<open>None\<close>, here
  \<open>Inr None\<close>.
\<close>

definition bin2cat ::
  "(string list \<Rightarrow> string list \<Rightarrow> string list) \<Rightarrow> store \<Rightarrow> ref \<Rightarrow> patterns_arg \<Rightarrow> string
     \<Rightarrow> store \<times> (error + ref option)" where
  "bin2cat regex_search_list s data one_hot_annotations new_annotation =
     (case patterns_of one_hot_annotations of
        None \<Rightarrow> (s, Inl (ValueError BadLabels))
      | Some patterns \<Rightarrow>
          if new_annotation \<in> set (column_names (s ! data)) then (s, Inl (ValueError ColumnExists))
          else if length patterns > 0 then
            (let all_columns = column_names (s ! data);
                 all_cell_labels = regex_search_list patterns all_columns
             in if length all_cell_labels > 0 then
                  (case loc_columns (s ! data) all_cell_labels of
                     Inl e \<Rightarrow> (s, Inl e)
                   | Inr cell_labels_df \<Rightarrow>
                       (case apply_rows (get_columns_with_1 cell_labels_df)
                               [0..<len (s ! data)] of
                          Inl e \<Rightarrow> (s, Inl e)
                        | Inr column_names_with_1 \<Rightarrow>
                            (s[data := set_column new_annotation
                                         (column_of_list column_names_with_1) (s ! data)],
                             Inr (Some data))))
                else (s, Inl (ValueError NoColumnFound)))
          else (s, Inr None))"

section \<open>Downsampling\<close>

text \<open>
  \<^verbatim>\<open>groupby(annotation)\<close> and \<^verbatim>\<open>value_counts\<close> leave out the rows whose
  annotation is \<^verbatim>\<open>nan\<close>. The groups come in the sorted order of their keys, in
  which pandas puts integers before strings.
\<close>

fun sort_key_of :: "pyobj \<Rightarrow> nat \<times> int \<times> string" where
  "sort_key_of (IntO i) = (0, i, [])"
| "sort_key_of (StrO str) = (1, 0, str)"
| "sort_key_of NaN = (2, 0, [])"

definition group_keys :: "pyobj list \<Rightarrow> pyobj list" where
  "group_keys vs = sort_key sort_key_of (remdups (filter (\<lambda>v. v \<noteq> NaN) vs))"

text \<open>A group is given by the positions of its rows, in the order of the rows.\<close>

definition group_positions :: "pyobj list \<Rightarrow> pyobj \<Rightarrow> nat list" where
  "group_positions vs g = filter (\<lambda>p. vs ! p = g) [0..<length vs]"

text \<open>
  \<^verbatim>\<open>value_counts(normalize=True)\<close>: the share of a group among the rows that have
  an annotation. The float of pandas is an exact rational here.
\<close>

definition freqs :: "pyobj list \<Rightarrow> pyobj \<Rightarrow> rat" where
  "freqs vs g =
     of_nat (length (group_positions vs g)) / of_nat (length (filter (\<lambda>v. v \<noteq> NaN) vs))"

text \<open>\<^verbatim>\<open>astype(int)\<close> cuts the fraction off, towards zero.\<close>

definition trunc :: "rat \<Rightarrow> int" where
  "trunc q = (if 0 \<le> q then \<lfloor>q\<rfloor> else \<lceil>q\<rceil>)"

definition n_samples_per_group :: "pyobj list \<Rightarrow> int \<Rightarrow> pyobj \<Rightarrow> int" where
  "n_samples_per_group vs n_samples g = trunc (freqs vs g * of_int n_samples)"

text \<open>
  \<^verbatim>\<open>head(n)\<close>: the first \<open>n\<close> rows; for a negative \<open>n\<close>, all rows but the
  last \<open>-n\<close>.
\<close>

definition head :: "int \<Rightarrow> 'a list \<Rightarrow> 'a list" where
  "head n xs = (if 0 \<le> n then take (nat n) xs else take (length xs - nat (- n)) xs)"

text \<open>
  \<^verbatim>\<open>sample(n)\<close> draws \<open>n\<close> rows without replacement. The random generator is
  a list of numbers still to come: each draw takes the next number and removes the row
  it points at from the rows left. A negative \<open>n\<close> and an \<open>n\<close> beyond the
  number of rows are refused.
\<close>

fun draw :: "nat list \<Rightarrow> nat \<Rightarrow> 'a list \<Rightarrow> 'a list \<times> nat list" where
  "draw rng 0 xs = ([], rng)"
| "draw rng (Suc k) xs =
     (if xs = [] then ([], rng)
      else
        (let i = (case rng of [] \<Rightarrow> 0 | r # _ \<Rightarrow> r mod length xs);
             (ys, rng') = draw (tl rng) k (take i xs @ drop (Suc i) xs)
         in (xs ! i # ys, rng')))"

definition sample :: "nat list \<Rightarrow> int \<Rightarrow> 'a list \<Rightarrow> error + 'a list \<times> nat list" where
  "sample rng n xs =
     (if n < 0 then Inl (ValueError NegativeSample)
      else if length xs < nat n then Inl (ValueError SampleTooLarge)
      else Inr (draw rng (nat n) xs))"

text \<open>
  The loop of the stratified branch over the groups. The sample of a group is the list
  of the positions of the chosen rows.
\<close>

fun stratified_loop ::
  "nat list \<Rightarrow> pyobj list \<Rightarrow> int \<Rightarrow> bool \<Rightarrow> pyobj list \<Rightarrow> nat list list
     \<Rightarrow> error + nat list list"
where
  "stratified_loop rng vs n_samples rand [] samples = Inr samples"
| "stratified_loop rng vs n_samples rand (group_key # groups) samples =
     (let group_data = group_positions vs group_key;
          n_group_samples = n_samples_per_group vs n_samples group_key
      in if rand then
           (case sample rng (min n_group_samples (int (length group_data))) group_data of
              Inl e \<Rightarrow> Inl e
            | Inr (chosen, rng') \<Rightarrow>
                stratified_loop rng' vs n_samples rand groups (samples @ [chosen]))
         else
           stratified_loop rng vs n_samples rand groups
             (samples @ [head (min n_group_samples (int (length group_data))) group_data]))"

text \<open>\<^verbatim>\<open>reset_index(drop=True)\<close>: the rows are labelled \<open>0, 1, \<dots>\<close> anew.\<close>

definition reset_index :: "frame \<Rightarrow> frame" where
  "reset_index f = f\<lparr>index := [0..<length (index f)]\<rparr>"

text \<open>
  \<^verbatim>\<open>downsample_cells(data, annotation, n_samples=None, stratify=False, rand=False)\<close>.
  \<^verbatim>\<open>pd.concat\<close> refuses an empty list of samples. The printed row count is not
  modelled.
\<close>

definition downsample_cells ::
  "nat list \<Rightarrow> frame \<Rightarrow> string \<Rightarrow> int option \<Rightarrow> bool \<Rightarrow> bool \<Rightarrow> error + frame" where
  "downsample_cells rng data annotation n_samples stratify rand =
     (case get_column data annotation of
        None \<Rightarrow> Inl (ValueError ColumnMissing)
      | Some c \<Rightarrow>
          (case n_samples of
             None \<Rightarrow> Inr data
           | Some n \<Rightarrow>
               (let vs = cells c; groups = group_keys vs
                in if stratify then
                     (case stratified_loop rng vs n rand groups [] of
                        Inl e \<Rightarrow> Inl e
                      | Inr samples \<Rightarrow>
                          if samples = [] then Inl (ValueError NoObjects)
                          else Inr (iloc (concat samples) data))
                   else
                     Inr (reset_index
                            (iloc (concat (map (\<lambda>g. head (min n (int (length (group_positions vs g))))
                                                     (group_positions vs g))
                                           groups))
                               data)))))"

text \<open>
  For the statements about \<^verbatim>\<open>downsample_cells\<close>: the number of rows of a frame
  whose annotation is \<open>g\<close>.
\<close>

definition group_count :: "frame \<Rightarrow> string \<Rightarrow> pyobj \<Rightarrow> nat" where
  "group_count f annotation g =
     (case get_column f annotation of
        None \<Rightarrow> 0
      | Some c \<Rightarrow> count_list (cells c) g)"

section \<open>Example inputs\<close>

text \<open>Three files: the second has the columns of the first in another order, the third
  has another column.\<close>

definition example_fs :: filesystem where
  "example_fs p =
     (if p = ''a.csv'' then Csv \<lparr>index = [0], columns = [(''x'', Int64 [1]), (''y'', Int64 [2])]\<rparr>
      else if p = ''b.csv'' then Csv \<lparr>index = [0], columns = [(''y'', Int64 [4]), (''x'', Int64 [3])]\<rparr>
      else if p = ''c.csv'' then Csv \<lparr>index = [0], columns = [(''x'', Int64 [5]), (''z'', Int64 [6])]\<rparr>
      else Missing)"

section \<open>Facts about columns\<close>

lemma update_keys_new:
  "k \<notin> fst ` set al \<Longrightarrow> map fst (AList.update k v al) = map fst al @ [k]"
  by (induction al) auto

lemma set_column_names_new:
  "name \<notin> set (column_names f) \<Longrightarrow> column_names (set_column name c f) = column_names f @ [name]"
  by (simp add: set_column_def column_names_def update_keys_new)

lemma set_column_index: "index (set_column name c f) = index f"
  by (simp add: set_column_def)

lemma set_column_get_other:
  "n \<noteq> name \<Longrightarrow> get_column (set_column name c f) n = get_column f n"
  by (simp add: set_column_def get_column_def update_conv')

lemma set_column_get_same: "get_column (set_column name c f) name = Some c"
  by (simp add: set_column_def get_column_def update_conv')

section \<open>Properties of row selection\<close>

text \<open>
  C8. On an empty table \<^verbatim>\<open>select_values\<close> returns its input unchanged without any
  validation, whatever the annotation name and the value list are; in particular it does
  not raise when the annotation column is absent. On a non-empty table an absent
  annotation column always raises the validation error.
\<close>

theorem select_values_empty_bypass:
  "(frame_empty data \<longrightarrow> select_values data annotation vals = Inr data) \<and>
   (\<not> frame_empty data \<and> annotation \<notin> set (column_names data) \<longrightarrow>
      select_values data annotation vals = Inl (ValueError ColumnMissing))"
  by (simp add: select_values_def)

theorem select_values_empty_bypass_witness:
  "frame_empty \<lparr>index = [], columns = [(''a'', Int64 [])]\<rparr> \<and>
   ''b'' \<notin> set (column_names \<lparr>index = [], columns = [(''a'', Int64 [])]\<rparr>) \<and>
   select_values \<lparr>index = [], columns = [(''a'', Int64 [])]\<rparr> ''b'' (Some [IntO 1])
     = Inr \<lparr>index = [], columns = [(''a'', Int64 [])]\<rparr> \<and>
   \<not> frame_empty \<lparr>index = [0], columns = [(''a'', Int64 [5])]\<rparr> \<and>
   ''b'' \<notin> set (column_names \<lparr>index = [0], columns = [(''a'', Int64 [5])]\<rparr>) \<and>
   select_values \<lparr>index = [0], columns = [(''a'', Int64 [5])]\<rparr> ''b'' (Some [IntO 1])
     = Inl (ValueError ColumnMissing)"
  using select_values_empty_bypass
          [of "\<lparr>index = [], columns = [(''a'', Int64 [])]\<rparr>" "''b''" "Some [IntO 1]"]
        select_values_empty_bypass
          [of "\<lparr>index = [0], columns = [(''a'', Int64 [5])]\<rparr>" "''b''" "Some [IntO 1]"]
  by (simp add: frame_empty_def column_names_def)

section \<open>Properties of the minimum subtraction\<close>

lemma quantile_Some: "xs \<noteq> [] \<Longrightarrow> \<exists>m. quantile xs q = Some m"
  by (simp add: quantile_def Let_def)

lemma subtract_column_length: "length (subtract_column q xs) = length xs"
  by (simp add: subtract_column_def split: option.splits)

lemma subtract_column_nth:
  assumes "i < length xs"
  shows "\<exists>m. quantile xs q = Some m \<and> subtract_column q xs ! i = max 0 (xs ! i - m)"
proof -
  from assms have "xs \<noteq> []" by auto
  then obtain m where m: "quantile xs q = Some m"
    using quantile_Some by blast
  with assms show ?thesis
    by (simp add: subtract_column_def max.commute)
qed

text \<open>
  C7. For a quantile in \<open>[0, 1]\<close>, \<^verbatim>\<open>subtract_min_quantile\<close> returns a table
  with the index and the columns of its input, each column as long as before, in which
  every value is the input value minus the column's quantile, clipped below at 0, and so
  is never negative.
\<close>

theorem subtract_min_quantile_nonneg:
  assumes "valid_quantile q"
  shows "\<exists>g. subtract_min_quantile f q = Inr g \<and>
           findex g = findex f \<and>
           map fst (fcolumns g) = map fst (fcolumns f) \<and>
           (\<forall>j < length (fcolumns f).
              length (snd (fcolumns g ! j)) = length (snd (fcolumns f ! j)) \<and>
              (\<forall>i < length (snd (fcolumns f ! j)).
                 \<exists>m. quantile (snd (fcolumns f ! j)) q = Some m \<and>
                     snd (fcolumns g ! j) ! i = max 0 (snd (fcolumns f ! j) ! i - m) \<and>
                     0 \<le> snd (fcolumns g ! j) ! i))"
proof -
  let ?g = "f\<lparr>fcolumns := map (\<lambda>(n, xs). (n, subtract_column q xs)) (fcolumns f)\<rparr>"
  have r: "subtract_min_quantile f q = Inr ?g"
    using assms by (simp add: subtract_min_quantile_def)
  have names: "map fst (fcolumns ?g) = map fst (fcolumns f)"
    by (simp add: case_prod_unfold comp_def)
  have col: "snd (fcolumns ?g ! j) = subtract_column q (snd (fcolumns f ! j))"
    if "j < length (fcolumns f)" for j
    using that by (simp add: case_prod_unfold)
  have vals: "length (snd (fcolumns ?g ! j)) = length (snd (fcolumns f ! j)) \<and>
      (\<forall>i < length (snd (fcolumns f ! j)).
         \<exists>m. quantile (snd (fcolumns f ! j)) q = Some m \<and>
             snd (fcolumns ?g ! j) ! i = max 0 (snd (fcolumns f ! j) ! i - m) \<and>
             0 \<le> snd (fcolumns ?g ! j) ! i)"
    if j: "j < length (fcolumns f)" for j
  proof (intro conjI allI impI)
    show "length (snd (fcolumns ?g ! j)) = length (snd (fcolumns f ! j))"
      using col [OF j] by (simp add: subtract_column_length)
  next
    fix i assume i: "i < length (snd (fcolumns f ! j))"
    from subtract_column_nth [OF i, of q] obtain m where
      m: "quantile (snd (fcolumns f ! j)) q = Some m"
         "subtract_column q (snd (fcolumns f ! j)) ! i = max 0 (snd (fcolumns f ! j) ! i - m)"
      by blast
    show "\<exists>m. quantile (snd (fcolumns f ! j)) q = Some m \<and>
             snd (fcolumns ?g ! j) ! i = max 0 (snd (fcolumns f ! j) ! i - m) \<and>
             0 \<le> snd (fcolumns ?g ! j) ! i"
      using m col [OF j] by auto
  qed
  show ?thesis
    using r names vals by (intro exI [of _ ?g]) simp
qed

theorem subtract_min_quantile_nonneg_witness:
  "valid_quantile (1/100) \<and>
   subtract_min_quantile
     \<lparr>findex = [StrO ''c0'', StrO ''c1''], fcolumns = [(''m'', [3, 1])]\<rparr> (1/100)
     = Inr \<lparr>findex = [StrO ''c0'', StrO ''c1''], fcolumns = [(''m'', [99/50, 0])]\<rparr>"
proof -
  have v: "valid_quantile (1/100)"
    by (simp add: valid_quantile_def)
  have e: "subtract_min_quantile
     \<lparr>findex = [StrO ''c0'', StrO ''c1''], fcolumns = [(''m'', [3, 1])]\<rparr> (1/100)
     = Inr \<lparr>findex = [StrO ''c0'', StrO ''c1''], fcolumns = [(''m'', [99/50, 0])]\<rparr>"
    by code_simp
  from subtract_min_quantile_nonneg [OF v]
  have "\<exists>g. subtract_min_quantile
     \<lparr>findex = [StrO ''c0'', StrO ''c1''], fcolumns = [(''m'', [3, 1])]\<rparr> (1/100) = Inr g"
    by blast
  with v e show ?thesis by simp
qed

section \<open>Properties of the rescaling\<close>

lemma clip_length: "length (clip lo hi xs) = length xs"
  by (simp add: clip_def)

lemma min_max_scale_length: "length (min_max_scale xs) = length xs"
  by (simp add: min_max_scale_def Let_def)

lemma min_max_scale_nth:
  assumes i: "i < length c" and nc: "Max (set c) \<noteq> Min (set c)"
  shows "min_max_scale c ! i = (c ! i - Min (set c)) / (Max (set c) - Min (set c))"
proof -
  have "Max (set c) - Min (set c) \<noteq> 0"
    using nc by simp
  then show ?thesis
    using i by (simp add: min_max_scale_def Let_def field_simps)
qed

lemma min_max_scale_unit:
  assumes i: "i < length c" and nc: "Max (set c) \<noteq> Min (set c)"
  shows "0 \<le> min_max_scale c ! i \<and> min_max_scale c ! i \<le> 1"
proof -
  have mem: "c ! i \<in> set c"
    using i by simp
  have lo: "Min (set c) \<le> c ! i" and hi: "c ! i \<le> Max (set c)"
    using mem by simp_all
  have "Min (set c) \<le> Max (set c)"
    using lo hi by linarith
  with nc have pos: "0 < Max (set c) - Min (set c)"
    by simp
  have "0 \<le> (c ! i - Min (set c)) / (Max (set c) - Min (set c))"
    using lo pos by simp
  moreover have "(c ! i - Min (set c)) / (Max (set c) - Min (set c)) \<le> 1"
    using hi pos by (simp add: field_simps)
  ultimately show ?thesis
    using min_max_scale_nth [OF i nc] by simp
qed

lemma rescale_column_eq:
  assumes "xs \<noteq> []"
  shows "\<exists>lo hi. quantile xs qmin = Some lo \<and> quantile xs qmax = Some hi \<and>
           rescale_column qmin qmax xs = min_max_scale (clip lo hi xs)"
  using assms by (simp add: rescale_column_def quantile_def Let_def)

text \<open>
  C3. For quantiles in \<open>[0, 1]\<close> and a well-formed table with at least one row and one
  column, \<^verbatim>\<open>rescale_features\<close> returns a table with the column names of its
  input in the same order. Each column is the input column clipped to its two quantile
  values and then min-max scaled: where the clipped column is not constant, every value
  lies in \<open>[0, 1]\<close> and equals \<open>(c - min) / (max - min)\<close> for the clipped value
  \<open>c\<close>.
\<close>

theorem rescale_features_unit_interval:
  assumes q: "valid_quantile min_quantile" "valid_quantile max_quantile"
    and rows: "findex f \<noteq> []" and cols: "fcolumns f \<noteq> []"
    and wf: "wf_features f"
  shows "\<exists>g. rescale_features f min_quantile max_quantile = Inr g \<and>
           map fst (fcolumns g) = map fst (fcolumns f) \<and>
           (\<forall>j < length (fcolumns f).
              \<exists>lo hi c.
                quantile (snd (fcolumns f ! j)) min_quantile = Some lo \<and>
                quantile (snd (fcolumns f ! j)) max_quantile = Some hi \<and>
                c = clip lo hi (snd (fcolumns f ! j)) \<and>
                length (snd (fcolumns g ! j)) = length c \<and>
                (Max (set c) \<noteq> Min (set c) \<longrightarrow>
                   (\<forall>i < length c.
                      0 \<le> snd (fcolumns g ! j) ! i \<and> snd (fcolumns g ! j) ! i \<le> 1 \<and>
                      snd (fcolumns g ! j) ! i
                        = (c ! i - Min (set c)) / (Max (set c) - Min (set c)))))"
proof -
  let ?g = "\<lparr>findex = map (\<lambda>i. IntO (int i)) [0..<length (findex f)],
             fcolumns = map (\<lambda>(n, xs). (n, rescale_column min_quantile max_quantile xs))
                          (fcolumns f)\<rparr>"
  have r: "rescale_features f min_quantile max_quantile = Inr ?g"
    using q rows cols by (simp add: rescale_features_def)
  have names: "map fst (fcolumns ?g) = map fst (fcolumns f)"
    by (simp add: case_prod_unfold comp_def)
  have col: "snd (fcolumns ?g ! j) = rescale_column min_quantile max_quantile (snd (fcolumns f ! j))"
    if "j < length (fcolumns f)" for j
    using that by (simp add: case_prod_unfold)
  have nonempty: "snd (fcolumns f ! j) \<noteq> []" if j: "j < length (fcolumns f)" for j
  proof -
    have "fcolumns f ! j \<in> set (fcolumns f)"
      using j by simp
    then have "length (snd (fcolumns f ! j)) = length (findex f)"
      using wf by (auto simp: wf_features_def list_all_iff)
    then show ?thesis
      using rows by auto
  qed
  have vals: "\<exists>lo hi c.
                quantile (snd (fcolumns f ! j)) min_quantile = Some lo \<and>
                quantile (snd (fcolumns f ! j)) max_quantile = Some hi \<and>
                c = clip lo hi (snd (fcolumns f ! j)) \<and>
                length (snd (fcolumns ?g ! j)) = length c \<and>
                (Max (set c) \<noteq> Min (set c) \<longrightarrow>
                   (\<forall>i < length c.
                      0 \<le> snd (fcolumns ?g ! j) ! i \<and> snd (fcolumns ?g ! j) ! i \<le> 1 \<and>
                      snd (fcolumns ?g ! j) ! i
                        = (c ! i - Min (set c)) / (Max (set c) - Min (set c))))"
    if j: "j < length (fcolumns f)" for j
  proof -
    from rescale_column_eq [OF nonempty [OF j]] obtain lo hi where
      lh: "quantile (snd (fcolumns f ! j)) min_quantile = Some lo"
          "quantile (snd (fcolumns f ! j)) max_quantile = Some hi"
          "rescale_column min_quantile max_quantile (snd (fcolumns f ! j))
             = min_max_scale (clip lo hi (snd (fcolumns f ! j)))"
      by blast
    let ?c = "clip lo hi (snd (fcolumns f ! j))"
    have g: "snd (fcolumns ?g ! j) = min_max_scale ?c"
      using col [OF j] lh(3) by simp
    have "length (snd (fcolumns ?g ! j)) = length ?c"
      using g by (simp add: min_max_scale_length)
    moreover have "\<forall>i < length ?c.
        0 \<le> snd (fcolumns ?g ! j) ! i \<and> snd (fcolumns ?g ! j) ! i \<le> 1 \<and>
        snd (fcolumns ?g ! j) ! i = (?c ! i - Min (set ?c)) / (Max (set ?c) - Min (set ?c))"
      if "Max (set ?c) \<noteq> Min (set ?c)"
      using that g min_max_scale_unit [of _ ?c] min_max_scale_nth [of _ ?c] by simp
    ultimately show ?thesis
      using lh(1,2) by blast
  qed
  show ?thesis
    using r names vals by (intro exI [of _ ?g]) simp
qed

theorem rescale_features_unit_interval_witness:
  "valid_quantile (1/100) \<and> valid_quantile (99/100) \<and>
   wf_features 
     \<lparr>findex = [StrO ''c0'', StrO ''c1'', StrO ''c2''],
        fcolumns = [(''m1'', [1, 2, 3]), (''m2'', [5, 5, 5])]\<rparr> \<and>
   rescale_features 
     \<lparr>findex = [StrO ''c0'', StrO ''c1'', StrO ''c2''],
        fcolumns = [(''m1'', [1, 2, 3]), (''m2'', [5, 5, 5])]\<rparr> (1/100) (99/100)
     = Inr \<lparr>findex = [IntO 0, IntO 1, IntO 2],
            fcolumns = [(''m1'', [0, 1/2, 1]), (''m2'', [0, 0, 0])]\<rparr>"
proof -
  have v: "valid_quantile (1/100)" "valid_quantile (99/100)"
    by (simp_all add: valid_quantile_def)
  have ne: "findex 
     \<lparr>findex = [StrO ''c0'', StrO ''c1'', StrO ''c2''],
        fcolumns = [(''m1'', [1, 2, 3]), (''m2'', [5, 5, 5])]\<rparr> \<noteq> []" "fcolumns 
     \<lparr>findex = [StrO ''c0'', StrO ''c1'', StrO ''c2''],
        fcolumns = [(''m1'', [1, 2, 3]), (''m2'', [5, 5, 5])]\<rparr> \<noteq> []"
    by simp_all
  have wf: "wf_features 
     \<lparr>findex = [StrO ''c0'', StrO ''c1'', StrO ''c2''],
        fcolumns = [(''m1'', [1, 2, 3]), (''m2'', [5, 5, 5])]\<rparr>"
    by (simp add: wf_features_def)
  have e: "rescale_features 
     \<lparr>findex = [StrO ''c0'', StrO ''c1'', StrO ''c2''],
        fcolumns = [(''m1'', [1, 2, 3]), (''m2'', [5, 5, 5])]\<rparr> (1/100) (99/100)
     = Inr \<lparr>findex = [IntO 0, IntO 1, IntO 2],
            fcolumns = [(''m1'', [0, 1/2, 1]), (''m2'', [0, 0, 0])]\<rparr>"
    by code_simp
  from rescale_features_unit_interval [OF v ne wf]
  have "\<exists>g. rescale_features 
     \<lparr>findex = [StrO ''c0'', StrO ''c1'', StrO ''c2''],
        fcolumns = [(''m1'', [1, 2, 3]), (''m2'', [5, 5, 5])]\<rparr> (1/100) (99/100) = Inr g"
    by blast
  with v wf e show ?thesis by simp
qed

section \<open>Row order of the per-region layer\<close>

text \<open>
  C2. The layer written by \<^verbatim>\<open>subtract_min_per_region\<close> is evaluated on three
  observations of which the first and the third are in region \<open>A\<close> and the second in
  region \<open>B\<close>. The frames of the regions are concatenated region by region, so the
  layer holds the rows of observations 0, 2, 1 in this order: its row 1 is the
  transformed row of observation 2 and its row 2 that of observation 1, while the layer
  aligned with the observations has them the other way round.
\<close>

theorem subtract_min_per_region_row_order:
  "(case subtract_min_per_region
           \<lparr>obs_names = [''0'', ''1'', ''2''], var_names = [''m''],
            X = [[1], [10], [3]],
            obs = [(''region'', [StrO ''A'', StrO ''B'', StrO ''A''])],
            layers = Map.empty\<rparr>
           ''region'' ''shifted'' (1/100) of
      Inl e \<Rightarrow> None
    | Inr adata \<Rightarrow> layers adata ''shifted'')
     = Some [[0], [99/50], [0]] \<and>
   aligned_region_layer
      \<lparr>obs_names = [''0'', ''1'', ''2''], var_names = [''m''],
       X = [[1], [10], [3]],
       obs = [(''region'', [StrO ''A'', StrO ''B'', StrO ''A''])],
       layers = Map.empty\<rparr>
      [StrO ''A'', StrO ''B'', StrO ''A''] (1/100)
     = [[0], [0], [99/50]]"
  by code_simp

section \<open>Properties of reading files\<close>

lemma read_csv_parseable: "parseable f \<Longrightarrow> read_csv f = Inr (parsed f)"
  by (cases f) auto

lemma parseable_not_missing: "parseable f \<Longrightarrow> f \<noteq> Missing \<and> f \<noteq> Unreadable"
  by (cases f) auto

lemma parseable_schema_nonempty: "parseable f \<Longrightarrow> column_names (parsed f) \<noteq> []"
  by (cases f) (auto simp: column_names_def)

lemma load_loop_matching:
  assumes "list_all (\<lambda>p. parseable (fs p)) ps"
    and "meta \<noteq> []"
    and "list_all (\<lambda>p. length (column_names (parsed (fs p))) = length meta \<and>
                        set (column_names (parsed (fs p))) = set meta) ps"
  shows "load_loop fs ps meta acc = Inr (acc @ map (\<lambda>p. (p, parsed (fs p))) ps)"
  using assms
proof (induction ps arbitrary: acc)
  case Nil
  then show ?case by simp
next
  case (Cons p ps)
  then show ?case
    by (simp add: read_csv_parseable parseable_not_missing Let_def)
qed

lemma load_loop_mismatch:
  assumes "list_all (\<lambda>p. parseable (fs p)) ps"
    and "meta \<noteq> []"
    and "\<not> list_all (\<lambda>p. length (column_names (parsed (fs p))) = length meta \<and>
                        set (column_names (parsed (fs p))) = set meta) ps"
  shows "load_loop fs ps meta acc = Inl (ValueError SchemaMismatch)"
  using assms
proof (induction ps arbitrary: acc)
  case Nil
  then show ?case by simp
next
  case (Cons p ps)
  then show ?case
    by (auto simp: read_csv_parseable parseable_not_missing Let_def)
qed

lemma load_loop_first:
  assumes "parseable (fs p)"
  shows "load_loop fs (p # ps) [] [] =
           load_loop fs ps (column_names (parsed (fs p))) [(p, parsed (fs p))]"
  using assms
  by (simp add: read_csv_parseable parseable_not_missing parseable_schema_nonempty Let_def)

text \<open>
  C6. On a list of paths that all hold a table pandas parses, \<^verbatim>\<open>load_csv_files\<close>
  compares each file with the first one. If every file has as many columns as the first
  and the same set of column names, whatever their order, the result is the list of the
  pairs of a path and its table, in the order of the paths. If some file differs in the
  number or in the set of its column names, the call raises the schema error and no
  list is returned.
\<close>

theorem load_csv_files_schema:
  assumes ok: "list_all (\<lambda>p. parseable (fs p)) names"
  shows "(list_all (same_schema fs (hd names)) names \<longrightarrow>
            load_csv_files fs (NameList names) = Inr (map (\<lambda>p. (p, parsed (fs p))) names)) \<and>
         (\<not> list_all (same_schema fs (hd names)) names \<longrightarrow>
            load_csv_files fs (NameList names) = Inl (ValueError SchemaMismatch))"
proof (cases names)
  case Nil
  then show ?thesis by (simp add: load_csv_files_def)
next
  case (Cons p ps)
  let ?meta = "column_names (parsed (fs p))"
  have p: "parseable (fs p)" and ps: "list_all (\<lambda>p. parseable (fs p)) ps"
    using ok Cons by simp_all
  have meta: "?meta \<noteq> []"
    using p by (rule parseable_schema_nonempty)
  have first: "load_csv_files fs (NameList names) = load_loop fs ps ?meta [(p, parsed (fs p))]"
    using Cons p load_loop_first [of fs p ps] by (simp add: load_csv_files_def)
  have same: "list_all (same_schema fs (hd names)) names =
      list_all (\<lambda>q. length (column_names (parsed (fs q))) = length ?meta \<and>
                     set (column_names (parsed (fs q))) = set ?meta) ps"
    using Cons by (simp add: same_schema_def [abs_def])
  show ?thesis
    using first same Cons ps meta
      load_loop_matching [of fs ps ?meta "[(p, parsed (fs p))]"]
      load_loop_mismatch [of fs ps ?meta "[(p, parsed (fs p))]"]
    by auto
qed

theorem load_csv_files_schema_witness:
  "list_all (\<lambda>p. parseable (example_fs p)) [''a.csv'', ''b.csv''] \<and>
   list_all (same_schema example_fs (hd [''a.csv'', ''b.csv''])) [''a.csv'', ''b.csv''] \<and>
   load_csv_files example_fs (NameList [''a.csv'', ''b.csv''])
     = Inr [(''a.csv'', \<lparr>index = [0], columns = [(''x'', Int64 [1]), (''y'', Int64 [2])]\<rparr>),
            (''b.csv'', \<lparr>index = [0], columns = [(''y'', Int64 [4]), (''x'', Int64 [3])]\<rparr>)] \<and>
   list_all (\<lambda>p. parseable (example_fs p)) [''a.csv'', ''c.csv''] \<and>
   \<not> list_all (same_schema example_fs (hd [''a.csv'', ''c.csv''])) [''a.csv'', ''c.csv''] \<and>
   load_csv_files example_fs (NameList [''a.csv'', ''c.csv'']) = Inl (ValueError SchemaMismatch)"
proof -
  have a: "example_fs ''a.csv'' = Csv \<lparr>index = [0], columns = [(''x'', Int64 [1]), (''y'', Int64 [2])]\<rparr>"
    and b: "example_fs ''b.csv'' = Csv \<lparr>index = [0], columns = [(''y'', Int64 [4]), (''x'', Int64 [3])]\<rparr>"
    and c: "example_fs ''c.csv'' = Csv \<lparr>index = [0], columns = [(''x'', Int64 [5]), (''z'', Int64 [6])]\<rparr>"
    by (simp_all add: example_fs_def)
  have ok1: "list_all (\<lambda>p. parseable (example_fs p)) [''a.csv'', ''b.csv'']"
    and ok2: "list_all (\<lambda>p. parseable (example_fs p)) [''a.csv'', ''c.csv'']"
    by (simp_all add: a b c)
  have same: "list_all (same_schema example_fs (hd [''a.csv'', ''b.csv''])) [''a.csv'', ''b.csv'']"
    by code_simp
  have diff: "\<not> list_all (same_schema example_fs (hd [''a.csv'', ''c.csv''])) [''a.csv'', ''c.csv'']"
    by code_simp
  have r1: "load_csv_files example_fs (NameList [''a.csv'', ''b.csv''])
     = Inr (map (\<lambda>p. (p, parsed (example_fs p))) [''a.csv'', ''b.csv''])"
    using load_csv_files_schema [OF ok1] same by blast
  have r2: "load_csv_files example_fs (NameList [''a.csv'', ''c.csv'']) = Inl (ValueError SchemaMismatch)"
    using load_csv_files_schema [OF ok2] diff by blast
  show ?thesis
    using ok1 ok2 same diff r1 r2 by (simp add: a b)
qed

section \<open>Frame effect of collapsing one-hot columns\<close>

lemma bin2cat_success:
  assumes run: "bin2cat regex_search_list s data one_hot_annotations new_annotation
                  = (s', Inr (Some result))"
  shows "\<exists>c. new_annotation \<notin> set (column_names (s ! data)) \<and> s' = s[data := set_column new_annotation c (s ! data)] \<and> result = data"
proof (cases "patterns_of one_hot_annotations")
  case None
  with run show ?thesis by (simp add: bin2cat_def)
next
  case (Some patterns)
  note p = Some
  show ?thesis
  proof (cases "new_annotation \<in> set (column_names (s ! data))")
    case True
    with run p show ?thesis by (simp add: bin2cat_def)
  next
    case fresh: False
    show ?thesis
    proof (cases "length patterns > 0 \<and> length (regex_search_list patterns (column_names (s ! data))) > 0")
      case False
      with run p fresh show ?thesis by (auto simp add: bin2cat_def Let_def split: if_splits)
    next
      case True
      show ?thesis
      proof (cases "loc_columns (s ! data) (regex_search_list patterns (column_names (s ! data)))")
        case (Inl e)
        with run p fresh True show ?thesis by (simp add: bin2cat_def Let_def)
      next
        case (Inr df)
        show ?thesis
        proof (cases "apply_rows (get_columns_with_1 df) [0..<len (s ! data)]")
          case (Inl e)
          with run p fresh True Inr show ?thesis by (simp add: bin2cat_def Let_def)
        next
          case vs: (Inr vs)
          with run p fresh True Inr show ?thesis by (simp add: bin2cat_def Let_def) blast
        qed
      qed
    qed
  qed
qed


text \<open>
  C10. When \<^verbatim>\<open>bin2cat\<close> returns a table, it returns the reference it was given.
  The store has no new frame; the frame behind that reference has gained the new column,
  placed last, and keeps its index and its other columns; every other frame of the
  store is as before. Nothing is copied.
\<close>

theorem bin2cat_in_place:
  assumes run: "bin2cat regex_search_list s data one_hot_annotations new_annotation
                  = (s', Inr (Some result))"
    and valid: "data < length s"
  shows "result = data \<and>
         length s' = length s \<and>
         (\<forall>r < length s. r \<noteq> data \<longrightarrow> s' ! r = s ! r) \<and>
         (\<exists>c. s' ! data = set_column new_annotation c (s ! data)) \<and>
         column_names (s' ! data) = column_names (s ! data) @ [new_annotation] \<and>
         index (s' ! data) = index (s ! data) \<and>
         (\<forall>n \<in> set (column_names (s ! data)).
            get_column (s' ! data) n = get_column (s ! data) n)"
proof -
  from bin2cat_success [OF run] obtain c where
    fresh: "new_annotation \<notin> set (column_names (s ! data))"
    and s': "s' = s[data := set_column new_annotation c (s ! data)]"
    and res: "result = data"
    by blast
  have at: "s' ! data = set_column new_annotation c (s ! data)"
    using s' valid by simp
  have other: "\<forall>n \<in> set (column_names (s ! data)).
      get_column (s' ! data) n = get_column (s ! data) n"
  proof
    fix n assume "n \<in> set (column_names (s ! data))"
    with fresh have "n \<noteq> new_annotation" by blast
    then show "get_column (s' ! data) n = get_column (s ! data) n"
      using at by (simp add: set_column_get_other)
  qed
  have names: "column_names (s' ! data) = column_names (s ! data) @ [new_annotation]"
    using at fresh by (simp add: set_column_names_new)
  have idx: "index (s' ! data) = index (s ! data)"
    using at by (simp add: set_column_index)
  have rest: "\<forall>r < length s. r \<noteq> data \<longrightarrow> s' ! r = s ! r"
    using s' by simp
  have len: "length s' = length s"
    using s' by simp
  show ?thesis
    using res len rest at names idx other by blast
qed

theorem bin2cat_in_place_witness:
  "bin2cat (\<lambda>patterns names. filter (\<lambda>n. n \<in> set patterns) names)
      [\<lparr>index = [0, 1, 2, 3],
        columns = [(''A'', Int64 [1, 1, 0, 0]), (''B'', Int64 [0, 0, 1, 0])]\<rparr>]
      0 (PatList [''A'', ''B'']) ''new_category''
    = ([\<lparr>index = [0, 1, 2, 3],
         columns = [(''A'', Int64 [1, 1, 0, 0]), (''B'', Int64 [0, 0, 1, 0]),
                    (''new_category'', Object [StrO ''A'', StrO ''A'', StrO ''B'', NaN])]\<rparr>],
       Inr (Some 0)) \<and>
   (0::nat) < length [\<lparr>index = [0, 1, 2, 3],
        columns = [(''A'', Int64 [1, 1, 0, 0]), (''B'', Int64 [0, 0, 1, 0])]\<rparr>]"
proof -
  have run: "bin2cat (\<lambda>patterns names. filter (\<lambda>n. n \<in> set patterns) names)
      [\<lparr>index = [0, 1, 2, 3],
        columns = [(''A'', Int64 [1, 1, 0, 0]), (''B'', Int64 [0, 0, 1, 0])]\<rparr>]
      0 (PatList [''A'', ''B'']) ''new_category''
    = ([\<lparr>index = [0, 1, 2, 3],
         columns = [(''A'', Int64 [1, 1, 0, 0]), (''B'', Int64 [0, 0, 1, 0]),
                    (''new_category'', Object [StrO ''A'', StrO ''A'', StrO ''B'', NaN])]\<rparr>],
       Inr (Some 0))"
    by code_simp
  have valid: "(0::nat) < length [\<lparr>index = [0, 1, 2, 3],
        columns = [(''A'', Int64 [1, 1, 0, 0]), (''B'', Int64 [0, 0, 1, 0])]\<rparr>]"
    by simp
  from bin2cat_in_place [OF run valid] have "(0::nat) = 0"
    by blast
  with run valid show ?thesis by blast
qed

section \<open>Frame effect of combining frames\<close>

lemma annotate_inputs_Cons:
  "annotate_inputs ann ((f, r) # rest) s =
     annotate_inputs ann rest
       (case map_of ann f of None \<Rightarrow> s | Some kvs \<Rightarrow> s[r := add_annotations kvs (s ! r)])"
  by (simp add: annotate_inputs_def)

lemma annotate_inputs_Nil: "annotate_inputs ann [] s = s"
  by (simp add: annotate_inputs_def)

lemma combine_loop_effect:
  assumes "combine_loop ann dfs s meta comb = (s', res)"
  shows "\<exists>k \<le> length dfs.
           s' = annotate_inputs ann (take k dfs) s \<and>
           (\<forall>i < k. map_of ann (fst (dfs ! i)) \<noteq> None) \<and>
           (case res of
              Inr c \<Rightarrow> k = length dfs
            | Inl e \<Rightarrow> k < length dfs \<and>
                (e = ValueError AnnotationMissing \<longrightarrow> map_of ann (fst (dfs ! k)) = None))"
  using assms
proof (induction dfs arbitrary: s meta comb)
  case Nil
  then show ?case by (auto simp: annotate_inputs_Nil)
next
  case (Cons p rest)
  obtain f r where p: "p = (f, r)" by (cases p)
  let ?meta = "if length meta = 0 then column_names (s ! r) else meta"
  show ?case
  proof (cases "length ?meta = length (column_names (s ! r)) \<and> set ?meta = set (column_names (s ! r))")
    case False
    with Cons.prems p have "s' = s" "res = Inl (ValueError SchemaMismatch)"
      by (auto simp: Let_def split: if_splits)
    then show ?thesis
      by (intro exI [of _ 0]) (simp add: annotate_inputs_Nil)
  next
    case schema: True
    show ?thesis
    proof (cases "map_of ann f")
      case None
      with Cons.prems p schema have "s' = s" "res = Inl (ValueError AnnotationMissing)"
        by (auto simp: Let_def split: if_splits)
      then show ?thesis
        using None p by (intro exI [of _ 0]) (simp add: annotate_inputs_Nil)
    next
      case (Some kvs)
      let ?df = "add_annotations kvs (s ! r)"
      let ?s = "s[r := ?df]"
      let ?comb = "if frame_empty comb then ?df else concat_frames comb ?df"
      have "combine_loop ann rest ?s ?meta ?comb = (s', res)"
        using Cons.prems p schema Some by (auto simp: Let_def split: if_splits)
      from Cons.IH [OF this] obtain k where k: "k \<le> length rest"
        "s' = annotate_inputs ann (take k rest) ?s"
        "\<forall>i < k. map_of ann (fst (rest ! i)) \<noteq> None"
        "case res of
              Inr c \<Rightarrow> k = length rest
            | Inl e \<Rightarrow> k < length rest \<and>
                (e = ValueError AnnotationMissing \<longrightarrow> map_of ann (fst (rest ! k)) = None)"
        by blast
      have a: "s' = annotate_inputs ann (take (Suc k) (p # rest)) s"
        using k(2) p Some by (simp add: annotate_inputs_Cons)
      have b: "\<forall>i < Suc k. map_of ann (fst ((p # rest) ! i)) \<noteq> None"
        using k(3) p Some by (auto simp: nth_Cons split: nat.splits)
      have c: "case res of
              Inr c \<Rightarrow> Suc k = length (p # rest)
            | Inl e \<Rightarrow> Suc k < length (p # rest) \<and>
                (e = ValueError AnnotationMissing \<longrightarrow> map_of ann (fst ((p # rest) ! Suc k)) = None)"
        using k(4) by (auto split: sum.splits)
      show ?thesis
        using k(1) a b c by (intro exI [of _ "Suc k"]) simp
    qed
  qed
qed


lemma set_column_names_set:
  "set (column_names (set_column n c f)) = insert n (set (column_names f))"
  by (simp add: set_column_def column_names_def dom_update)

lemma add_annotations_names:
  "set (column_names (add_annotations kvs df)) = fst ` set kvs \<union> set (column_names df)"
  unfolding add_annotations_def
  by (induction kvs arbitrary: df) (auto simp: set_column_names_set)

lemma annotate_inputs_length: "length (annotate_inputs ann pairs s) = length s"
  by (induction pairs arbitrary: s) (auto simp: annotate_inputs_Nil annotate_inputs_Cons split: option.splits prod.splits)

lemma annotate_inputs_names_mono:
  assumes "q < length s"
  shows "set (column_names (s ! q)) \<subseteq> set (column_names (annotate_inputs ann pairs s ! q))"
  using assms
proof (induction pairs arbitrary: s)
  case Nil
  then show ?case by (simp add: annotate_inputs_Nil)
next
  case (Cons p rest)
  obtain f r where p: "p = (f, r)" by (cases p)
  show ?case
  proof (cases "map_of ann f")
    case None
    then show ?thesis
      using Cons p by (simp add: annotate_inputs_Cons)
  next
    case (Some kvs)
    let ?s = "s[r := add_annotations kvs (s ! r)]"
    have len: "q < length ?s"
      using Cons.prems by simp
    have "set (column_names (s ! q)) \<subseteq> set (column_names (?s ! q))"
      using Cons.prems by (cases "q = r") (auto simp: add_annotations_names)
    also have "\<dots> \<subseteq> set (column_names (annotate_inputs ann rest ?s ! q))"
      using Cons.IH [OF len] .
    finally show ?thesis
      using p Some by (simp add: annotate_inputs_Cons)
  qed
qed

lemma annotate_inputs_untouched:
  assumes "q \<notin> snd ` set pairs"
  shows "annotate_inputs ann pairs s ! q = s ! q"
  using assms
proof (induction pairs arbitrary: s)
  case Nil
  then show ?case by (simp add: annotate_inputs_Nil)
next
  case (Cons p rest)
  obtain f r where p: "p = (f, r)" by (cases p)
  have "q \<noteq> r" and "q \<notin> snd ` set rest"
    using Cons.prems p by auto
  then show ?case
    using Cons.IH p by (cases "map_of ann f") (simp_all add: annotate_inputs_Cons)
qed

lemma annotate_inputs_columns:
  assumes "i < length pairs"
    and "list_all (\<lambda>(f, r). r < length s) pairs"
    and "map_of ann (fst (pairs ! i)) = Some kvs"
  shows "fst ` set kvs \<subseteq> set (column_names (annotate_inputs ann pairs s ! snd (pairs ! i)))"
  using assms
proof (induction pairs arbitrary: s i)
  case Nil
  then show ?case by simp
next
  case (Cons p rest)
  obtain f r where p: "p = (f, r)" by (cases p)
  have r: "r < length s" and rest: "list_all (\<lambda>(f, r). r < length s) rest"
    using Cons.prems(2) p by simp_all
  show ?case
  proof (cases i)
    case 0
    then have kvs: "map_of ann f = Some kvs"
      using Cons.prems(3) p by simp
    let ?s = "s[r := add_annotations kvs (s ! r)]"
    have "fst ` set kvs \<subseteq> set (column_names (?s ! r))"
      using r by (simp add: add_annotations_names)
    also have "\<dots> \<subseteq> set (column_names (annotate_inputs ann rest ?s ! r))"
      using r by (intro annotate_inputs_names_mono) simp
    finally show ?thesis
      using 0 p kvs by (simp add: annotate_inputs_Cons)
  next
    case (Suc j)
    let ?s = "case map_of ann f of None \<Rightarrow> s | Some kvs' \<Rightarrow> s[r := add_annotations kvs' (s ! r)]"
    have len: "length ?s = length s"
      by (simp split: option.splits)
    have "fst ` set kvs \<subseteq> set (column_names (annotate_inputs ann rest ?s ! snd (rest ! j)))"
      using Cons.prems Suc rest len by (intro Cons.IH) simp_all
    then show ?thesis
      using Suc p by (simp add: annotate_inputs_Cons)
  qed
qed

lemma annotate_inputs_distinct:
  assumes "i < length pairs"
    and "distinct (map snd pairs)"
    and "list_all (\<lambda>(f, r). r < length s) pairs"
    and "map_of ann (fst (pairs ! i)) = Some kvs"
  shows "annotate_inputs ann pairs s ! snd (pairs ! i) = add_annotations kvs (s ! snd (pairs ! i))"
  using assms
proof (induction pairs arbitrary: s i)
  case Nil
  then show ?case by simp
next
  case (Cons p rest)
  obtain f r where p: "p = (f, r)" by (cases p)
  have r: "r < length s" and rest: "list_all (\<lambda>(f, r). r < length s) rest"
    using Cons.prems(3) p by simp_all
  have fresh: "r \<notin> snd ` set rest" and dist: "distinct (map snd rest)"
    using Cons.prems(2) p by auto
  show ?case
  proof (cases i)
    case 0
    then have kvs: "map_of ann f = Some kvs"
      using Cons.prems(4) p by simp
    show ?thesis
      using 0 p kvs r annotate_inputs_untouched [OF fresh]
      by (simp add: annotate_inputs_Cons)
  next
    case (Suc j)
    let ?s = "case map_of ann f of None \<Rightarrow> s | Some kvs' \<Rightarrow> s[r := add_annotations kvs' (s ! r)]"
    have len: "length ?s = length s"
      by (simp split: option.splits)
    have j: "j < length rest"
      using Cons.prems(1) Suc by simp
    then have "snd (rest ! j) \<in> snd ` set rest"
      by simp
    with fresh have ne: "snd (rest ! j) \<noteq> r"
      by auto
    have same: "?s ! snd (rest ! j) = s ! snd (rest ! j)"
      using ne by (simp split: option.splits)
    have "annotate_inputs ann rest ?s ! snd (rest ! j) = add_annotations kvs (?s ! snd (rest ! j))"
      using Cons.prems Suc rest len dist j by (intro Cons.IH) simp_all
    then show ?thesis
      using Suc p same by (simp add: annotate_inputs_Cons)
  qed
qed

text \<open>
  C9. \<^verbatim>\<open>combine_dfs\<close> writes the annotations into the frames it was given. The
  frames of the first \<open>k\<close> pairs have been written when the call ends, where
  \<open>k\<close> is the number of all pairs if the call returns and the position of the
  failing pair if it raises; a failure for a missing annotation entry at position
  \<open>k\<close> thus leaves the \<open>k\<close> earlier frames modified. The store has no new
  frame. Each written frame has a column for every annotation of its file, and, when no
  frame is given twice, it is the original frame with the annotation columns added.
\<close>

theorem combine_dfs_writes_inputs:
  assumes run: "combine_dfs s dataframes (AnnFrame ann) = (s', res)"
    and valid: "list_all (\<lambda>(file_name, r). r < length s) dataframes"
  shows "\<exists>k \<le> length dataframes.
           (case res of
              Inr combined \<Rightarrow> k = length dataframes
            | Inl e \<Rightarrow> k < length dataframes \<and>
                (e = ValueError AnnotationMissing \<longrightarrow> map_of ann (fst (dataframes ! k)) = None)) \<and>
           s' = annotate_inputs ann (take k dataframes) s \<and>
           length s' = length s \<and>
           (\<forall>i < k. \<exists>file_annotations.
              map_of ann (fst (dataframes ! i)) = Some file_annotations \<and>
              fst ` set file_annotations \<subseteq> set (column_names (s' ! snd (dataframes ! i))) \<and>
              (distinct (map snd dataframes) \<longrightarrow>
                 s' ! snd (dataframes ! i)
                   = add_annotations file_annotations (s ! snd (dataframes ! i))))"
proof -
  obtain res0 where loop: "combine_loop ann dataframes s [] \<lparr>index = [], columns = []\<rparr> = (s', res0)"
    and res: "res = (case res0 of Inl e \<Rightarrow> Inl e
                     | Inr c \<Rightarrow> Inr (c\<lparr>index := [0..<len c]\<rparr>))"
    using run by (auto simp: combine_dfs_def split: prod.splits sum.splits)
  from combine_loop_effect [OF loop] obtain k where k: "k \<le> length dataframes"
    and s': "s' = annotate_inputs ann (take k dataframes) s"
    and present: "\<forall>i < k. map_of ann (fst (dataframes ! i)) \<noteq> None"
    and stop: "case res0 of
              Inr c \<Rightarrow> k = length dataframes
            | Inl e \<Rightarrow> k < length dataframes \<and>
                (e = ValueError AnnotationMissing \<longrightarrow> map_of ann (fst (dataframes ! k)) = None)"
    by blast
  have stop': "case res of
              Inr combined \<Rightarrow> k = length dataframes
            | Inl e \<Rightarrow> k < length dataframes \<and>
                (e = ValueError AnnotationMissing \<longrightarrow> map_of ann (fst (dataframes ! k)) = None)"
    using stop res by (cases res0) simp_all
  have len: "length s' = length s"
    using s' by (simp add: annotate_inputs_length)
  have valid_k: "list_all (\<lambda>(file_name, r). r < length s) (take k dataframes)"
    using valid by (auto simp: list_all_iff dest: in_set_takeD)
  have each: "\<exists>file_annotations.
              map_of ann (fst (dataframes ! i)) = Some file_annotations \<and>
              fst ` set file_annotations \<subseteq> set (column_names (s' ! snd (dataframes ! i))) \<and>
              (distinct (map snd dataframes) \<longrightarrow>
                 s' ! snd (dataframes ! i)
                   = add_annotations file_annotations (s ! snd (dataframes ! i)))"
    if i: "i < k" for i
  proof -
    from present i obtain kvs where kvs: "map_of ann (fst (dataframes ! i)) = Some kvs"
      by auto
    have ik: "i < length (take k dataframes)"
      using i k by simp
    have nth: "take k dataframes ! i = dataframes ! i"
      using i by simp
    have cols: "fst ` set kvs \<subseteq> set (column_names (s' ! snd (dataframes ! i)))"
      using annotate_inputs_columns [OF ik valid_k, of ann kvs] kvs nth s' by simp
    have "s' ! snd (dataframes ! i) = add_annotations kvs (s ! snd (dataframes ! i))"
      if d: "distinct (map snd dataframes)"
    proof -
      have "distinct (map snd (take k dataframes))"
        using d by (simp add: take_map [symmetric] distinct_take)
      from annotate_inputs_distinct [OF ik this valid_k, of ann kvs] kvs nth s'
      show ?thesis by simp
    qed
    with kvs cols show ?thesis by blast
  qed
  show ?thesis
    using k stop' s' len each by blast
qed


theorem combine_dfs_writes_inputs_witness:
  "combine_dfs
      [\<lparr>index = [0, 1], columns = [(''x'', Int64 [1, 2])]\<rparr>,
       \<lparr>index = [0], columns = [(''x'', Int64 [3])]\<rparr>]
      [(''a.csv'', 0), (''b.csv'', 1)]
      (AnnFrame [(''a.csv'', [(''batch'', StrO ''one'')])])
     = ([\<lparr>index = [0, 1], columns = [(''x'', Int64 [1, 2]),
                                       (''batch'', Object [StrO ''one'', StrO ''one''])]\<rparr>,
         \<lparr>index = [0], columns = [(''x'', Int64 [3])]\<rparr>],
        Inl (ValueError AnnotationMissing)) \<and>
   list_all (\<lambda>(file_name, r). r < length
      [\<lparr>index = [0, 1], columns = [(''x'', Int64 [1, 2])]\<rparr>,
       \<lparr>index = [0], columns = [(''x'', Int64 [3])]\<rparr>])
     [(''a.csv'', 0), (''b.csv'', 1)]"
proof -
  have run: "combine_dfs
      [\<lparr>index = [0, 1], columns = [(''x'', Int64 [1, 2])]\<rparr>,
       \<lparr>index = [0], columns = [(''x'', Int64 [3])]\<rparr>]
      [(''a.csv'', 0), (''b.csv'', 1)]
      (AnnFrame [(''a.csv'', [(''batch'', StrO ''one'')])])
     = ([\<lparr>index = [0, 1], columns = [(''x'', Int64 [1, 2]),
                                       (''batch'', Object [StrO ''one'', StrO ''one''])]\<rparr>,
         \<lparr>index = [0], columns = [(''x'', Int64 [3])]\<rparr>],
        Inl (ValueError AnnotationMissing))"
    by code_simp
  have valid: "list_all (\<lambda>(file_name, r). r < length
      [\<lparr>index = [0, 1], columns = [(''x'', Int64 [1, 2])]\<rparr>,
       \<lparr>index = [0], columns = [(''x'', Int64 [3])]\<rparr>])
     [(''a.csv'', 0), (''b.csv'', 1)]"
    by simp
  from combine_dfs_writes_inputs [OF run valid]
  have "length [\<lparr>index = [0, 1], columns = [(''x'', Int64 [1, 2]),
                                       (''batch'', Object [StrO ''one'', StrO ''one''])]\<rparr>,
         \<lparr>index = [0], columns = [(''x'', Int64 [3])]\<rparr>] = length [\<lparr>index = [0, 1], columns = [(''x'', Int64 [1, 2])]\<rparr>,
       \<lparr>index = [0], columns = [(''x'', Int64 [3])]\<rparr>]"
    by blast
  with run valid show ?thesis by blast
qed

section \<open>Properties of the annotation mapping\<close>

lemma split_on_nonempty: "split_on sep xs \<noteq> []"
  by (induction xs) (auto split: list.splits)

lemma split_on_length: "length (split_on sep xs) = Suc (count_list xs sep)"
  by (induction xs) (auto split: list.splits simp: split_on_nonempty)

lemma digit_value_char: "d < 10 \<Longrightarrow> digit_value (digit_char d) = Some d"
  by (simp add: digit_value_def digit_char_def Let_def)

lemma digit_char_not_minus: "d < 10 \<Longrightarrow> digit_char d \<noteq> CHR ''-''"
proof
  assume d: "d < 10" and "digit_char d = CHR ''-''"
  then have "digit_value (CHR ''-'') = Some d"
    using digit_value_char [OF d] by simp
  then show False
    by (simp add: digit_value_def)
qed

lemma nat_of_digits_snoc:
  "d < 10 \<Longrightarrow>
     nat_of_digits (cs @ [digit_char d]) acc = map_option (\<lambda>m. 10 * m + d) (nat_of_digits cs acc)"
  by (induction cs arbitrary: acc) (auto simp: digit_value_char split: option.splits)

lemma str_of_nat_nonempty: "str_of_nat n \<noteq> []"
  by (subst str_of_nat.simps) simp

lemma nat_of_digits_str_of_nat: "nat_of_digits (str_of_nat n) 0 = Some n"
proof (induction n rule: str_of_nat.induct)
  case (1 n)
  show ?case
  proof (cases "n < 10")
    case True
    then show ?thesis
      by (subst str_of_nat.simps) (simp add: digit_value_char)
  next
    case False
    then have "nat_of_digits (str_of_nat (n div 10)) 0 = Some (n div 10)"
      using 1 by simp
    then have "nat_of_digits (str_of_nat (n div 10) @ [digit_char (n mod 10)]) 0
                 = Some (10 * (n div 10) + n mod 10)"
      by (simp add: nat_of_digits_snoc)
    then show ?thesis
      using False by (subst str_of_nat.simps) simp
  qed
qed

lemma hd_str_of_nat_not_minus: "hd (str_of_nat n) \<noteq> CHR ''-''"
proof (induction n rule: str_of_nat.induct)
  case (1 n)
  show ?case
  proof (cases "n < 10")
    case True
    then show ?thesis
      by (subst str_of_nat.simps) (simp add: digit_char_not_minus)
  next
    case False
    then show ?thesis
      using 1 str_of_nat_nonempty [of "n div 10"]
      by (subst str_of_nat.simps) simp
  qed
qed

lemma nat_of_str_str_of_nat: "nat_of_str (str_of_nat n) = Some n"
  by (simp add: nat_of_str_def str_of_nat_nonempty nat_of_digits_str_of_nat)

lemma int_of_str_str_of_int: "int_of_str (str_of_int i) = Some i"
proof (cases "i < 0")
  case True
  then show ?thesis
    by (simp add: int_of_str_def str_of_int_def nat_of_str_str_of_nat)
next
  case False
  obtain c cs where s: "str_of_nat (nat i) = c # cs"
    using str_of_nat_nonempty [of "nat i"] by (cases "str_of_nat (nat i)") auto
  have "c \<noteq> CHR ''-''"
    using hd_str_of_nat_not_minus [of "nat i"] s by simp
  then show ?thesis
    using False s nat_of_str_str_of_nat [of "nat i"]
    by (simp add: int_of_str_def str_of_int_def)
qed

lemma those_map_Some: "those (map (\<lambda>x. Some (f x)) xs) = Some (map f xs)"
  by (induction xs) auto

lemma astype_roundtrip_dtype:
  "\<exists>c'. astype (dtype_of c) (astype_str c) = Inr c' \<and> dtype_of c' = dtype_of c \<and>
        length (cells c') = length (cells c)"
proof (cases c)
  case (Int64 xs)
  have "map to_int (cells (astype_str c)) = map (\<lambda>x. Some x) xs"
    using Int64 by (simp add: astype_str_def int_of_str_str_of_int comp_def)
  then have "those (map to_int (cells (astype_str c))) = Some xs"
    using those_map_Some [of "\<lambda>x. x" xs] by simp
  then show ?thesis
    using Int64 by simp
next
  case (Object os)
  then show ?thesis
    by (simp add: astype_str_def)
qed


lemma get_column_in_names: "get_column f n = Some c \<Longrightarrow> n \<in> set (column_names f)"
  by (auto simp: get_column_def column_names_def dest: map_of_SomeD intro: rev_image_eqI)

lemma in_names_get_column: "n \<in> set (column_names f) \<Longrightarrow> \<exists>c. get_column f n = Some c"
  by (cases "get_column f n") (auto simp: get_column_def column_names_def map_of_eq_None_iff)

lemma set_column_names_existing:
  "name \<in> set (column_names f) \<Longrightarrow> column_names (set_column name c f) = column_names f"
  by (simp add: set_column_def column_names_def update_keys)

lemma wf_frame_column_length:
  "wf_frame f \<Longrightarrow> get_column f n = Some c \<Longrightarrow> length (cells c) = len f"
  by (auto simp: wf_frame_def get_column_def len_def list_all_iff dest!: map_of_SomeD)

lemma mapped_value_Nil: "mapped_value [] sv old = old"
  by (simp add: mapped_value_def)

lemma mapped_value_Cons:
  "split_on CHR '':'' rule = [a, b] \<Longrightarrow>
     mapped_value (rule # rules) sv old = mapped_value rules sv (if sv = a then StrO b else old)"
  by (simp add: mapped_value_def)

lemma mapped_value_cases:
  assumes "list_all (\<lambda>rule. length (split_on CHR '':'' rule) = 2) rules"
  shows "mapped_value rules sv old = old \<or>
         (\<exists>rule \<in> set rules. \<exists>tv. split_on CHR '':'' rule = [sv, tv] \<and>
             mapped_value rules sv old = StrO tv)"
  using assms
proof (induction rules arbitrary: old)
  case Nil
  then show ?case by (simp add: mapped_value_Nil)
next
  case (Cons rule rules)
  then obtain a b where ab: "split_on CHR '':'' rule = [a, b]"
    by (cases "split_on CHR '':'' rule" rule: list.exhaust)
       (auto simp: length_Suc_conv)
  have rest: "list_all (\<lambda>rule. length (split_on CHR '':'' rule) = 2) rules"
    using Cons.prems by simp
  let ?old = "if sv = a then StrO b else old"
  have step: "mapped_value (rule # rules) sv old = mapped_value rules sv ?old"
    using ab by (rule mapped_value_Cons)
  from Cons.IH [OF rest, of ?old] show ?case
  proof
    assume keep: "mapped_value rules sv ?old = ?old"
    show ?thesis
    proof (cases "sv = a")
      case True
      then have "split_on CHR '':'' rule = [sv, b] \<and> mapped_value (rule # rules) sv old = StrO b"
        using ab step keep by simp
      then show ?thesis by auto
    next
      case False
      then show ?thesis using step keep by simp
    qed
  next
    assume "\<exists>r \<in> set rules. \<exists>tv. split_on CHR '':'' r = [sv, tv] \<and>
              mapped_value rules sv ?old = StrO tv"
    then show ?thesis using step by auto
  qed
qed

lemma map2_step:
  "length olds = length strs \<Longrightarrow>
     map2 (\<lambda>v old. if py_eq v (StrO a) then StrO b else old) (map StrO strs) olds
       = map2 (\<lambda>sv old. if sv = a then StrO b else old) strs olds"
  by (induction strs olds rule: list_induct2') (auto simp: py_eq_def)

lemma map2_mapped_value_Cons:
  assumes "split_on CHR '':'' rule = [a, b]" and "length olds = length strs"
  shows "map2 (mapped_value rules) strs (map2 (\<lambda>sv old. if sv = a then StrO b else old) strs olds)
           = map2 (mapped_value (rule # rules)) strs olds"
  using assms(2)
  by (induction strs olds rule: list_induct2') (auto simp: mapped_value_Cons [OF assms(1)])

lemma rules_loop_result:
  assumes "list_all (\<lambda>rule. length (split_on CHR '':'' rule) = 2) rules"
    and "get_column df source_column = Some (Object (map StrO strs))"
    and "get_column df new_column = Some (Object olds)"
    and "length olds = length strs"
    and "source_column \<noteq> new_column"
  shows "\<exists>df'. rules_loop rules source_column new_column df = Inr df' \<and>
           index df' = index df \<and>
           column_names df' = column_names df \<and>
           get_column df' new_column = Some (Object (map2 (mapped_value rules) strs olds)) \<and>
           (\<forall>n. n \<noteq> new_column \<longrightarrow> get_column df' n = get_column df n)"
  using assms
proof (induction rules arbitrary: df olds)
  case Nil
  have "map2 (mapped_value []) strs olds = olds"
    using Nil.prems(4) by (induction strs olds rule: list_induct2') (auto simp: mapped_value_Nil)
  then show ?case
    using Nil by simp
next
  case (Cons rule rules)
  then obtain a b where ab: "split_on CHR '':'' rule = [a, b]"
    by (cases "split_on CHR '':'' rule" rule: list.exhaust)
       (auto simp: length_Suc_conv)
  have rest: "list_all (\<lambda>rule. length (split_on CHR '':'' rule) = 2) rules"
    using Cons.prems(1) by simp
  let ?olds = "map2 (\<lambda>sv old. if sv = a then StrO b else old) strs olds"
  let ?df = "set_column new_column (Object ?olds) df"
  have assign: "assign_where source_column a new_column b df = Inr ?df"
    using Cons.prems(2,3,4) by (simp add: assign_where_def map2_step)
  have src: "get_column ?df source_column = Some (Object (map StrO strs))"
    using Cons.prems(2,5) by (simp add: set_column_get_other)
  have new: "get_column ?df new_column = Some (Object ?olds)"
    by (simp add: set_column_get_same)
  have len: "length ?olds = length strs"
    using Cons.prems(4) by simp
  from Cons.IH [OF rest src new len Cons.prems(5)] obtain df' where
    df': "rules_loop rules source_column new_column ?df = Inr df'"
      "index df' = index ?df"
      "column_names df' = column_names ?df"
      "get_column df' new_column = Some (Object (map2 (mapped_value rules) strs ?olds))"
      "\<forall>n. n \<noteq> new_column \<longrightarrow> get_column df' n = get_column ?df n"
    by blast
  have run: "rules_loop (rule # rules) source_column new_column df = Inr df'"
    using ab assign df'(1) by simp
  have names: "column_names df' = column_names df"
    using df'(3) get_column_in_names [OF Cons.prems(3)]
    by (simp add: set_column_names_existing)
  have vals: "get_column df' new_column = Some (Object (map2 (mapped_value (rule # rules)) strs olds))"
    using df'(4) map2_mapped_value_Cons [OF ab Cons.prems(4)] by simp
  have others: "\<forall>n. n \<noteq> new_column \<longrightarrow> get_column df' n = get_column df n"
    using df'(5) by (simp add: set_column_get_other)
  show ?case
    using run df'(2) names vals others by (simp add: set_column_index)
qed


lemma one_colon_split:
  "count_list rule CHR '':'' = 1 \<Longrightarrow> length (split_on CHR '':'' rule) = 2"
  by (simp add: split_on_length)

lemma one_colon_member: "count_list rule CHR '':'' = 1 \<Longrightarrow> CHR '':'' \<in> set rule"
  by (metis count_notin zero_neq_one)

lemma mapped_copy_result:
  assumes wf: "wf_frame data"
    and src: "get_column data source_column = Some src"
    and new_out: "new_column \<notin> set (column_names data)"
    and rules_ok: "list_all (\<lambda>rule. length (split_on CHR '':'' rule) = 2) rules"
  shows "\<exists>result src'.
      mapped_copy data source_column new_column rules = Inr result \<and>
      index result = index data \<and>
      column_names result = column_names data @ [new_column] \<and>
      get_column result source_column = Some src' \<and> dtype_of src' = dtype_of src \<and>
      get_column result new_column
        = Some (Object (map (\<lambda>v. mapped_value rules (py_str v) (StrO ''Not_Mapped'')) (cells src)))"
proof -
  let ?n = "len data"
  let ?strs = "map py_str (cells src)"
  let ?olds = "replicate ?n (StrO ''Not_Mapped'')"
  let ?df1 = "set_column new_column (broadcast (StrO ''Not_Mapped'') ?n) data"
  let ?df2 = "set_column source_column (astype_str src) ?df1"
  have src_in: "source_column \<in> set (column_names data)"
    using src by (rule get_column_in_names)
  then have ne: "source_column \<noteq> new_column"
    using new_out by auto
  have len_src: "length (cells src) = ?n"
    using wf src by (rule wf_frame_column_length)
  have src1: "get_column ?df1 source_column = Some src"
    using src ne by (simp add: set_column_get_other)
  have names1: "column_names ?df1 = column_names data @ [new_column]"
    using new_out by (rule set_column_names_new)
  have names2: "column_names ?df2 = column_names data @ [new_column]"
    using names1 src_in by (simp add: set_column_names_existing)
  have src2: "get_column ?df2 source_column = Some (Object (map StrO ?strs))"
    by (simp add: set_column_get_same astype_str_def comp_def)
  have new2: "get_column ?df2 new_column = Some (Object ?olds)"
    using ne by (simp add: set_column_get_other set_column_get_same)
  have len_olds: "length ?olds = length ?strs"
    using len_src by simp
  from rules_loop_result [OF rules_ok src2 new2 len_olds ne] obtain df3 where
    df3: "rules_loop rules source_column new_column ?df2 = Inr df3"
      "index df3 = index ?df2"
      "column_names df3 = column_names ?df2"
      "get_column df3 new_column = Some (Object (map2 (mapped_value rules) ?strs ?olds))"
      "\<forall>n. n \<noteq> new_column \<longrightarrow> get_column df3 n = get_column ?df2 n"
    by blast
  have src3: "get_column df3 source_column = Some (astype_str src)"
    using df3(5) ne by (simp add: set_column_get_same)
  from astype_roundtrip_dtype [of src] obtain c' where
    c': "astype (dtype_of src) (astype_str src) = Inr c'" "dtype_of c' = dtype_of src"
    by blast
  let ?result = "set_column source_column c' df3"
  have run: "mapped_copy data source_column new_column rules = Inr ?result"
    using src1 df3(1) src3 c'(1) by (simp add: mapped_copy_def Let_def)
  have idx: "index ?result = index data"
    using df3(2) by (simp add: set_column_index)
  have src3_in: "source_column \<in> set (column_names df3)"
    using src3 by (rule get_column_in_names)
  have names: "column_names ?result = column_names data @ [new_column]"
    using df3(3) names2 src3_in by (simp add: set_column_names_existing)
  have zipped: "map2 (mapped_value rules) ?strs ?olds
      = map (\<lambda>v. mapped_value rules (py_str v) (StrO ''Not_Mapped'')) (cells src)"
    using len_src by (intro nth_equalityI) simp_all
  have new: "get_column ?result new_column
      = Some (Object (map (\<lambda>v. mapped_value rules (py_str v) (StrO ''Not_Mapped'')) (cells src)))"
    using df3(4) ne zipped by (simp add: set_column_get_other)
  show ?thesis
    using run idx names new c'(2) by (simp add: set_column_get_same)
qed

text \<open>
  C5, as amended. For a well-formed input table that has the source column, a new column
  name that is not yet a column, and rules that each have exactly one colon,
  \<^verbatim>\<open>append_observation\<close> leaves the input frame as it is and returns a new frame
  with the index and the columns of the input and the new column last. In each row the
  new column holds what the rules, read in order, map the row's source string to:
  the sentinel \<^verbatim>\<open>Not_Mapped\<close>, or the target of a rule whose source value is the
  row's source string. The source column of the result has the dtype it has in the input.
\<close>

theorem append_observation_maps:
  assumes ref: "data < length s"
    and wf: "wf_frame (s ! data)"
    and src_in: "source_column \<in> set (column_names (s ! data))"
    and new_out: "new_column \<notin> set (column_names (s ! data))"
    and rules_ok: "list_all (\<lambda>rule. count_list rule CHR '':'' = 1) rules"
  shows "\<exists>result src src' vs.
      append_observation s data source_column new_column (Rules rules)
        = (s @ [result], Inr (length s)) \<and>
      (s @ [result]) ! data = s ! data \<and>
      index result = index (s ! data) \<and>
      column_names result = column_names (s ! data) @ [new_column] \<and>
      get_column (s ! data) source_column = Some src \<and>
      get_column result source_column = Some src' \<and> dtype_of src' = dtype_of src \<and>
      get_column result new_column = Some (Object vs) \<and> length vs = len (s ! data) \<and>
      (\<forall>i < len (s ! data).
         vs ! i = mapped_value rules (py_str (cells src ! i)) (StrO ''Not_Mapped'') \<and>
         (vs ! i = StrO ''Not_Mapped'' \<or>
          (\<exists>rule \<in> set rules. \<exists>tv.
             split_on CHR '':'' rule = [py_str (cells src ! i), tv] \<and> vs ! i = StrO tv)))"
proof -
  from in_names_get_column [OF src_in] obtain src where
    src: "get_column (s ! data) source_column = Some src"
    by blast
  have split2: "list_all (\<lambda>rule. length (split_on CHR '':'' rule) = 2) rules"
    using rules_ok by (auto simp: list_all_iff one_colon_split)
  have colon: "list_all (\<lambda>rule. CHR '':'' \<in> set rule) rules"
    using rules_ok by (auto simp: list_all_iff one_colon_member)
  let ?vs = "map (\<lambda>v. mapped_value rules (py_str v) (StrO ''Not_Mapped'')) (cells src)"
  from mapped_copy_result [OF wf src new_out split2] obtain result src' where
    r: "mapped_copy (s ! data) source_column new_column rules = Inr result"
      "index result = index (s ! data)"
      "column_names result = column_names (s ! data) @ [new_column]"
      "get_column result source_column = Some src'" "dtype_of src' = dtype_of src"
      "get_column result new_column = Some (Object ?vs)"
    by blast
  have run: "append_observation s data source_column new_column (Rules rules)
        = (s @ [result], Inr (length s))"
    using src_in new_out colon r(1) by (simp add: append_observation_def)
  have same: "(s @ [result]) ! data = s ! data"
    using ref by (simp add: nth_append)
  have len_src: "length (cells src) = len (s ! data)"
    using wf src by (rule wf_frame_column_length)
  have each: "?vs ! i = mapped_value rules (py_str (cells src ! i)) (StrO ''Not_Mapped'') \<and>
         (?vs ! i = StrO ''Not_Mapped'' \<or>
          (\<exists>rule \<in> set rules. \<exists>tv.
             split_on CHR '':'' rule = [py_str (cells src ! i), tv] \<and> ?vs ! i = StrO tv))"
    if "i < len (s ! data)" for i
    using that len_src
      mapped_value_cases [OF split2, of "py_str (cells src ! i)" "StrO ''Not_Mapped''"]
    by simp
  have "length ?vs = len (s ! data)"
    using len_src by simp
  with run same r(2,3,4,5,6) src each show ?thesis
    by blast
qed


theorem append_observation_maps_witness:
  "(0::nat) < length [\<lparr>index = [0, 1, 2], columns = [(''phenotype'', Int64 [1, 2, 1])]\<rparr>] \<and>
   wf_frame \<lparr>index = [0, 1, 2], columns = [(''phenotype'', Int64 [1, 2, 1])]\<rparr> \<and>
   ''phenotype'' \<in> set (column_names \<lparr>index = [0, 1, 2], columns = [(''phenotype'', Int64 [1, 2, 1])]\<rparr>) \<and>
   ''label'' \<notin> set (column_names \<lparr>index = [0, 1, 2], columns = [(''phenotype'', Int64 [1, 2, 1])]\<rparr>) \<and>
   list_all (\<lambda>rule. count_list rule CHR '':'' = 1) [''1:tumor'', ''3:other''] \<and>
   append_observation [\<lparr>index = [0, 1, 2], columns = [(''phenotype'', Int64 [1, 2, 1])]\<rparr>] 0 ''phenotype'' ''label'' (Rules [''1:tumor'', ''3:other''])
     = ([\<lparr>index = [0, 1, 2], columns = [(''phenotype'', Int64 [1, 2, 1])]\<rparr>,
         \<lparr>index = [0, 1, 2],
          columns = [(''phenotype'', Int64 [1, 2, 1]),
                     (''label'', Object [StrO ''tumor'', StrO ''Not_Mapped'', StrO ''tumor''])]\<rparr>],
        Inr 1)"
proof -
  let ?s = "[\<lparr>index = [0, 1, 2], columns = [(''phenotype'', Int64 [1, 2, 1])]\<rparr>]"
  have ref: "(0::nat) < length ?s"
    by simp
  have wf: "wf_frame (?s ! 0)"
    by (simp add: wf_frame_def)
  have src_in: "''phenotype'' \<in> set (column_names (?s ! 0))"
    by (simp add: column_names_def)
  have new_out: "''label'' \<notin> set (column_names (?s ! 0))"
    by (simp add: column_names_def)
  have rules_ok: "list_all (\<lambda>rule. count_list rule CHR '':'' = 1) [''1:tumor'', ''3:other'']"
    by simp
  have run: "append_observation ?s 0 ''phenotype'' ''label'' (Rules [''1:tumor'', ''3:other''])
     = ([\<lparr>index = [0, 1, 2], columns = [(''phenotype'', Int64 [1, 2, 1])]\<rparr>,
         \<lparr>index = [0, 1, 2],
          columns = [(''phenotype'', Int64 [1, 2, 1]),
                     (''label'', Object [StrO ''tumor'', StrO ''Not_Mapped'', StrO ''tumor''])]\<rparr>],
        Inr 1)"
    by code_simp
  from append_observation_maps [OF ref wf src_in new_out rules_ok]
  have "\<exists>result. append_observation ?s 0 ''phenotype'' ''label'' (Rules [''1:tumor'', ''3:other''])
          = (?s @ [result], Inr (length ?s))"
    by blast
  with ref wf src_in new_out rules_ok run show ?thesis
    by simp
qed

text \<open>
  C5, as stated, fails: a rule with two colons contains the separator, passes the check
  of the rules, and makes the call raise when the rule is unpacked; no table is returned.
\<close>

theorem append_observation_colon_counterexample:
  "list_all (\<lambda>rule. CHR '':'' \<in> set rule) [''1:tumor:x''] \<and>
   ''phenotype'' \<in> set (column_names \<lparr>index = [0, 1, 2], columns = [(''phenotype'', Int64 [1, 2, 1])]\<rparr>) \<and>
   ''label'' \<notin> set (column_names \<lparr>index = [0, 1, 2], columns = [(''phenotype'', Int64 [1, 2, 1])]\<rparr>) \<and>
   append_observation [\<lparr>index = [0, 1, 2], columns = [(''phenotype'', Int64 [1, 2, 1])]\<rparr>] 0 ''phenotype'' ''label'' (Rules [''1:tumor:x''])
     = ([\<lparr>index = [0, 1, 2], columns = [(''phenotype'', Int64 [1, 2, 1])]\<rparr>], Inl (ValueError Unpack))"
  by code_simp

end
